theory Spec2Isabelle
  imports Complex_Main "HOL-Library.Log_Nat"
begin

section \<open>Data model\<close>

text \<open>
  The server of \<^verbatim>\<open>src/index.js\<close> keeps three tables behind a Prisma client: users,
  stores and ratings. The Prisma schema itself is not part of the sources, so the
  tables are modelled from the fields the handlers read and write.
\<close>

datatype role = USER | OWNER | ADMIN

record user =
  u_id :: int
  u_name :: string
  u_email :: string
  u_password :: string
  u_role :: role
  u_createdAt :: nat

record store =
  s_id :: int
  s_name :: string
  s_address :: string
  s_ownerId :: int

record rating =
  r_id :: int
  r_rating :: int
  r_storeId :: int
  r_userId :: int

text \<open>
  Modelled from the spec: the schema (missing from the sources) gives every table an
  integer primary key \<open>id\<close>; the keys of new stores and ratings are drawn from the
  sequences \<open>store_seq\<close> and \<open>rating_seq\<close>. The rows of a table are kept in the order
  in which a query without \<open>orderBy\<close> answers them: a new row comes last, and so does a
  row that has been updated.
\<close>

record db =
  users :: "user list"
  stores :: "store list"
  ratings :: "rating list"
  store_seq :: int
  rating_seq :: int

subsection \<open>Values of the request body\<close>

text \<open>
  \<open>req.body.rating\<close> is whatever \<open>express.json()\<close> parsed. The scalar values are
  modelled: a missing field (\<open>undefined\<close>), \<open>null\<close>, a boolean, and a number, which
  stands for the rational its double denotes. Strings, arrays and objects are outside
  this model.
\<close>

datatype jsval = JUndefined | JNull | JBool bool | JNumber rat

text \<open>
  \<open>req.body.ownerId\<close> is never compared or converted by a handler, only handed to the
  Prisma client, so that a string can be modelled as well.
\<close>

datatype jsid = IdUndefined | IdNull | IdBool bool | IdNumber rat | IdString string

fun js_truthy :: "jsval \<Rightarrow> bool" where
  "js_truthy JUndefined = False"
| "js_truthy JNull = False"
| "js_truthy (JBool b) = b"
| "js_truthy (JNumber q) = (q \<noteq> 0)"

text \<open>\<open>ToNumber\<close>; \<open>None\<close> is NaN, and every comparison with NaN is false.\<close>

fun js_toNumber :: "jsval \<Rightarrow> rat option" where
  "js_toNumber JUndefined = None"
| "js_toNumber JNull = Some 0"
| "js_toNumber (JBool b) = Some (if b then 1 else 0)"
| "js_toNumber (JNumber q) = Some q"

definition js_lt :: "jsval \<Rightarrow> rat \<Rightarrow> bool" where
  "js_lt v n = (case js_toNumber v of None \<Rightarrow> False | Some q \<Rightarrow> q < n)"

definition js_gt :: "jsval \<Rightarrow> rat \<Rightarrow> bool" where
  "js_gt v n = (case js_toNumber v of None \<Rightarrow> False | Some q \<Rightarrow> n < q)"

subsection \<open>Exceptions and responses\<close>

text \<open>
  What a call of the Prisma client, of bcrypt or of the JavaScript runtime may throw.
  Every handler catches it and answers 500 with the exception's message.
\<close>

datatype exn =
    P2002 \<comment> \<open>unique constraint failed\<close>
  | P2003 \<comment> \<open>foreign key constraint failed\<close>
  | P2025 \<comment> \<open>record to update or delete not found\<close>
  | PrismaValidation \<comment> \<open>argument of the wrong type\<close>
  | TypeError \<comment> \<open>property read on \<open>null\<close>\<close>
  | IllegalArguments \<comment> \<open>bcrypt called without a string\<close>

record token =
  t_id :: int
  t_role :: role
  t_iat :: nat
  t_exp :: nat
  t_key :: string

text \<open>
  What the listing handlers add to a store: the ratings Prisma included, and the
  aggregate over them. \<open>v_averageRating\<close> is the number as the JSON response prints it.
\<close>

record store_view =
  v_store :: store
  v_ratings :: "rating list"
  v_averageRating :: rat
  v_totalRatings :: nat

record top_store =
  ts_id :: int
  ts_name :: string
  ts_averageRating :: rat
  ts_totalRatings :: nat
  ts_owner :: string

text \<open>
  The dashboard. \<open>usersByRole\<close> is an object with one key for every role that has a
  user; it is kept as an association list.
\<close>

record dashboard =
  totalUsers :: nat
  totalStores :: nat
  totalRatings :: nat
  usersByRole :: "(role \<times> nat) list"
  topStores :: "top_store list"

datatype body =
    ErrorBody string
  | MessageBody string
  | Caught exn
  | RatingBody rating
  | StoreBody store
  | StoreUpdated store
  | UserUpdated user
  | LoginBody token user
  | StoreList "store_view list"
  | DashboardBody dashboard

datatype response = Response (status: nat) (body: body)

section \<open>Numbers\<close>

text \<open>
  JavaScript numbers are IEEE 754 doubles. A finite double is modelled by the rational
  it denotes, and an operation by the exact result rounded to the nearest double, ties
  to the even significand: \<open>fl\<close>. The exponent range is not modelled: the ratings are
  32-bit integers and an array holds fewer than \<open>2 ^ 32\<close> of them, so no sum or quotient
  below leaves the normal range.
\<close>

definition pow2 :: "int \<Rightarrow> rat" where
  "pow2 e = (if 0 \<le> e then 2 ^ nat e else 1 / 2 ^ nat (- e))"

definition round_half_even :: "rat \<Rightarrow> int" where
  "round_half_even y =
     (let f = \<lfloor>y\<rfloor>; r = y - of_int f
      in if r < 1 / 2 then f else if 1 / 2 < r then f + 1 else if even f then f else f + 1)"

text \<open>The binary exponent of a positive rational \<open>q\<close>: \<open>2 ^ e \<le> q < 2 ^ (e + 1)\<close>.\<close>

definition exponent :: "rat \<Rightarrow> int" where
  "exponent q =
     (let (a, b) = quotient_of q; k = bitlen a - bitlen b
      in if pow2 k \<le> q then k else k - 1)"

text \<open>Rounding to 53 significant bits.\<close>

definition fl :: "rat \<Rightarrow> rat" where
  "fl q =
     (if q = 0 then 0
      else (let u = pow2 (exponent \<bar>q\<bar> - 52)
            in sgn q * of_int (round_half_even (\<bar>q\<bar> / u)) * u))"

definition js_add :: "rat \<Rightarrow> rat \<Rightarrow> rat" where
  "js_add a b = fl (a + b)"

definition js_div :: "rat \<Rightarrow> rat \<Rightarrow> rat" where
  "js_div a b = fl (a / b)"

text \<open>
  \<open>parseFloat(x.toFixed(1))\<close>. \<open>toFixed(1)\<close> writes the decimal \<open>n / 10\<close> for the integer
  \<open>n\<close> that brings \<open>n / 10\<close> nearest to the magnitude of \<open>x\<close>, the larger \<open>n\<close> when two
  are as near, and the sign of \<open>x\<close>; from \<open>10 ^ 21\<close> on it writes \<open>x\<close> itself.
  \<open>parseFloat\<close> reads the nearest double, which the response prints as the same
  decimal: the result is kept as that decimal.
\<close>

definition toFixed1 :: "rat \<Rightarrow> rat" where
  "toFixed1 x =
     (if 10 ^ 21 \<le> \<bar>x\<bar> then x
      else sgn x * of_int \<lfloor>\<bar>x\<bar> * 10 + 1 / 2\<rfloor> / 10)"

section \<open>The Prisma client\<close>

text \<open>
  Modelled from the spec: the constraints of the schema (missing from the sources).
  \<open>Rating.rating\<close> is an \<open>Int\<close> column, the pair \<open>(storeId, userId)\<close> of a rating is
  unique (the handler looks ratings up by \<open>storeId_userId\<close>), \<open>User.email\<close> is unique,
  and a rating references its store and its user, a store its owner, by foreign keys
  that restrict deletion. A call that fails leaves the rows of the tables as they were.
\<close>

text \<open>
  How the Prisma client reads a value for an \<open>Int\<close> column or key. A number is taken by
  its integer part, which has to be a 32-bit integer; a number outside that range, and
  every value that is not a number, is refused with a validation error (\<open>None\<close>).
\<close>

definition int32 :: "int \<Rightarrow> bool" where
  "int32 i = (- (2 ^ 31) \<le> i \<and> i < 2 ^ 31)"

definition prisma_Int_number :: "rat \<Rightarrow> int option" where
  "prisma_Int_number q =
     (let n = (if 0 \<le> q then \<lfloor>q\<rfloor> else \<lceil>q\<rceil>) in if int32 n then Some n else None)"

definition prisma_Int :: "jsval \<Rightarrow> int option" where
  "prisma_Int v = (case v of JNumber q \<Rightarrow> prisma_Int_number q | _ \<Rightarrow> None)"

definition prisma_id :: "jsid \<Rightarrow> int option" where
  "prisma_id v = (case v of IdNumber q \<Rightarrow> prisma_Int_number q | _ \<Rightarrow> None)"

definition user_findUnique :: "db \<Rightarrow> int \<Rightarrow> user option" where
  "user_findUnique d i = find (\<lambda>u. u_id u = i) (users d)"

definition user_findUnique_email :: "db \<Rightarrow> string \<Rightarrow> user option" where
  "user_findUnique_email d e = find (\<lambda>u. u_email u = e) (users d)"

definition store_findUnique :: "db \<Rightarrow> int \<Rightarrow> store option" where
  "store_findUnique d i = find (\<lambda>s. s_id s = i) (stores d)"

definition rating_findUnique :: "db \<Rightarrow> int \<Rightarrow> int \<Rightarrow> rating option" where
  "rating_findUnique d sid uid =
     find (\<lambda>r. r_storeId r = sid \<and> r_userId r = uid) (ratings d)"

definition rating_update :: "db \<Rightarrow> int \<Rightarrow> jsval \<Rightarrow> exn + db \<times> rating" where
  "rating_update d rid v =
     (case prisma_Int v of
        None \<Rightarrow> Inl PrismaValidation
      | Some n \<Rightarrow>
          (case find (\<lambda>r. r_id r = rid) (ratings d) of
             None \<Rightarrow> Inl P2025
           | Some r \<Rightarrow>
               Inr (d\<lparr>ratings :=
                        filter (\<lambda>x. r_id x \<noteq> rid) (ratings d) @ [r\<lparr>r_rating := n\<rparr>]\<rparr>,
                    r\<lparr>r_rating := n\<rparr>)))"

text \<open>
  An insert draws its key from the sequence before the constraints are checked: an
  insert that the database refuses has still advanced the sequence.
\<close>

definition rating_create ::
  "db \<Rightarrow> jsval \<Rightarrow> int \<Rightarrow> int \<Rightarrow> exn \<times> db + db \<times> rating" where
  "rating_create d v sid uid =
     (case prisma_Int v of
        None \<Rightarrow> Inl (PrismaValidation, d)
      | Some n \<Rightarrow>
          if rating_findUnique d sid uid \<noteq> None then
            Inl (P2002, d\<lparr>rating_seq := rating_seq d + 1\<rparr>)
          else if store_findUnique d sid = None \<or> user_findUnique d uid = None then
            Inl (P2003, d\<lparr>rating_seq := rating_seq d + 1\<rparr>)
          else
            (let r = \<lparr>r_id = rating_seq d, r_rating = n, r_storeId = sid, r_userId = uid\<rparr>
             in Inr (d\<lparr>ratings := ratings d @ [r], rating_seq := rating_seq d + 1\<rparr>, r)))"

text \<open>The relation counts \<open>_count.stores\<close> and \<open>_count.ratings\<close> of a user.\<close>

definition count_stores :: "db \<Rightarrow> int \<Rightarrow> nat" where
  "count_stores d uid = length (filter (\<lambda>s. s_ownerId s = uid) (stores d))"

definition count_ratings :: "db \<Rightarrow> int \<Rightarrow> nat" where
  "count_ratings d uid = length (filter (\<lambda>r. r_userId r = uid) (ratings d))"

definition user_update :: "db \<Rightarrow> int \<Rightarrow> string \<Rightarrow> string \<Rightarrow> role \<Rightarrow> exn + db \<times> user" where
  "user_update d uid n e r =
     (case user_findUnique d uid of
        None \<Rightarrow> Inl P2025
      | Some u \<Rightarrow>
          if list_ex (\<lambda>x. u_email x = e \<and> u_id x \<noteq> uid) (users d) then Inl P2002
          else
            Inr (d\<lparr>users :=
                     filter (\<lambda>x. u_id x \<noteq> uid) (users d)
                       @ [u\<lparr>u_name := n, u_email := e, u_role := r\<rparr>]\<rparr>,
                 u\<lparr>u_name := n, u_email := e, u_role := r\<rparr>))"

definition user_delete :: "db \<Rightarrow> int \<Rightarrow> exn + db" where
  "user_delete d uid =
     (case user_findUnique d uid of
        None \<Rightarrow> Inl P2025
      | Some u \<Rightarrow>
          if 0 < count_stores d uid \<or> 0 < count_ratings d uid then Inl P2003
          else Inr (d\<lparr>users := filter (\<lambda>x. u_id x \<noteq> uid) (users d)\<rparr>))"

definition store_create ::
  "db \<Rightarrow> string \<Rightarrow> string \<Rightarrow> int \<Rightarrow> exn \<times> db + db \<times> store" where
  "store_create d n a oid =
     (if user_findUnique d oid = None then Inl (P2003, d\<lparr>store_seq := store_seq d + 1\<rparr>)
      else
        (let s = \<lparr>s_id = store_seq d, s_name = n, s_address = a, s_ownerId = oid\<rparr>
         in Inr (d\<lparr>stores := stores d @ [s], store_seq := store_seq d + 1\<rparr>, s)))"

definition store_update :: "db \<Rightarrow> int \<Rightarrow> string \<Rightarrow> string \<Rightarrow> int \<Rightarrow> exn + db \<times> store" where
  "store_update d sid n a oid =
     (case store_findUnique d sid of
        None \<Rightarrow> Inl P2025
      | Some s \<Rightarrow>
          if user_findUnique d oid = None then Inl P2003
          else
            Inr (d\<lparr>stores :=
                     filter (\<lambda>x. s_id x \<noteq> sid) (stores d)
                       @ [s\<lparr>s_name := n, s_address := a, s_ownerId := oid\<rparr>]\<rparr>,
                 s\<lparr>s_name := n, s_address := a, s_ownerId := oid\<rparr>))"

definition store_delete :: "db \<Rightarrow> int \<Rightarrow> exn + db" where
  "store_delete d sid =
     (case store_findUnique d sid of
        None \<Rightarrow> Inl P2025
      | Some s \<Rightarrow>
          if list_ex (\<lambda>r. r_storeId r = sid) (ratings d) then Inl P2003
          else Inr (d\<lparr>stores := filter (\<lambda>x. s_id x \<noteq> sid) (stores d)\<rparr>))"

definition rating_deleteMany :: "db \<Rightarrow> int \<Rightarrow> db" where
  "rating_deleteMany d sid = d\<lparr>ratings := filter (\<lambda>r. r_storeId r \<noteq> sid) (ratings d)\<rparr>"

text \<open>\<open>include: { ratings: ... }\<close>: the ratings of a store, by the relation on \<open>storeId\<close>.\<close>

definition include_ratings :: "db \<Rightarrow> store \<Rightarrow> rating list" where
  "include_ratings d s = filter (\<lambda>r. r_storeId r = s_id s) (ratings d)"

text \<open>
  What the schema's constraints keep true of the ratings table: the primary key and the
  pair \<open>(storeId, userId)\<close> are unique, and the sequence is ahead of every key in use.
\<close>

definition ratings_wf :: "db \<Rightarrow> bool" where
  "ratings_wf d =
     (distinct (map r_id (ratings d))
      \<and> distinct (map (\<lambda>r. (r_storeId r, r_userId r)) (ratings d))
      \<and> list_all (\<lambda>r. r_id r < rating_seq d) (ratings d))"


text \<open>The foreign key of the stores: every store references a user as its owner.\<close>

definition stores_fk :: "db \<Rightarrow> bool" where
  "stores_fk d = list_all (\<lambda>s. user_findUnique d (s_ownerId s) \<noteq> None) (stores d)"

section \<open>Middleware\<close>

text \<open>
  \<open>jwt.sign\<close> and \<open>jwt.verify\<close> of the jsonwebtoken library: a token carries its
  payload, the time it was issued, its expiry and the key it was signed with; it
  verifies under the same key strictly before its expiry. Time is in seconds.
\<close>

definition jwt_sign :: "string \<Rightarrow> nat \<Rightarrow> int \<Rightarrow> role \<Rightarrow> token" where
  "jwt_sign secret now i r =
     \<lparr>t_id = i, t_role = r, t_iat = now, t_exp = now + 24 * 60 * 60, t_key = secret\<rparr>"

definition jwt_verify :: "string \<Rightarrow> nat \<Rightarrow> token \<Rightarrow> bool" where
  "jwt_verify secret now t = (t_key t = secret \<and> now < t_exp t)"

text \<open>The \<open>Authorization\<close> header: absent, without a second word, or \<open>Bearer\<close> and a token.\<close>

datatype authorization = Absent | Malformed | Bearer token

definition authMiddleware :: "string \<Rightarrow> nat \<Rightarrow> authorization \<Rightarrow> response + token" where
  "authMiddleware secret now h =
     (case h of
        Absent \<Rightarrow> Inl (Response 401 (ErrorBody ''No token provided''))
      | Malformed \<Rightarrow> Inl (Response 403 (ErrorBody ''Invalid token''))
      | Bearer t \<Rightarrow>
          if jwt_verify secret now t then Inr t
          else Inl (Response 403 (ErrorBody ''Invalid token'')))"

definition adminMiddleware :: "token \<Rightarrow> response option" where
  "adminMiddleware u =
     (if t_role u \<noteq> ADMIN then Some (Response 403 (ErrorBody ''Admin access required''))
      else None)"

definition ownerMiddleware :: "token \<Rightarrow> response option" where
  "ownerMiddleware u =
     (if t_role u \<noteq> OWNER then Some (Response 403 (ErrorBody ''Store owner access required''))
      else None)"

section \<open>Validation functions\<close>

text \<open>
  A string field of the body is \<open>None\<close> when it is missing. \<open>name && ...\<close> is false for
  a missing and for an empty string.
\<close>

definition validateName :: "string option \<Rightarrow> bool" where
  "validateName name =
     (case name of None \<Rightarrow> False | Some n \<Rightarrow> n \<noteq> [] \<and> 20 \<le> length n \<and> length n \<le> 60)"

definition validateAddress :: "string option \<Rightarrow> bool" where
  "validateAddress address =
     (case address of None \<Rightarrow> False | Some a \<Rightarrow> a \<noteq> [] \<and> length a \<le> 400)"

text \<open>
  The regular expression \<open>/^[^\s@]+@[^\s@]+\.[^\s@]+$/\<close>, over ASCII: a run of characters
  that are neither white space nor \<open>@\<close>, then \<open>@\<close>, then such characters to the end with
  a dot among them that is neither the first nor the last.
\<close>

definition is_space :: "char \<Rightarrow> bool" where
  "is_space c = (c \<in> set [CHR 0x20, CHR 0x09, CHR 0x0A, CHR 0x0B, CHR 0x0C, CHR 0x0D])"

definition word_char :: "char \<Rightarrow> bool" where
  "word_char c = (\<not> is_space c \<and> c \<noteq> CHR ''@'')"

definition emailRegex :: "string \<Rightarrow> bool" where
  "emailRegex s =
     (let local = takeWhile word_char s
      in local \<noteq> [] \<and>
         (case drop (length local) s of
            [] \<Rightarrow> False
          | c # domain \<Rightarrow>
              c = CHR ''@'' \<and> list_all word_char domain \<and>
              list_ex (\<lambda>i. domain ! i = CHR ''.'') [1..<length domain - 1]))"

definition validateEmail :: "string option \<Rightarrow> bool" where
  "validateEmail email = (case email of None \<Rightarrow> False | Some e \<Rightarrow> e \<noteq> [] \<and> emailRegex e)"

text \<open>\<open>["USER", "OWNER", "ADMIN"].includes(role)\<close>, with the role the string names.\<close>

definition role_of_string :: "string option \<Rightarrow> role option" where
  "role_of_string role =
     (if role = Some ''USER'' then Some USER
      else if role = Some ''OWNER'' then Some OWNER
      else if role = Some ''ADMIN'' then Some ADMIN
      else None)"

section \<open>Rating a store\<close>

text \<open>
  The handler of \<open>POST /stores/:id/rate\<close>, after \<open>authMiddleware\<close> has set \<open>req.user\<close>.
  The argument \<open>param\<close> is \<open>parseInt(req.params.id)\<close>, with \<open>None\<close> for NaN. Every key in
  a table is a 32-bit integer: an id outside that range has no row, and for it
  \<open>findUnique\<close> throws instead of answering \<open>null\<close>.
\<close>

definition rate_handler :: "db \<Rightarrow> token \<Rightarrow> int option \<Rightarrow> jsval \<Rightarrow> db \<times> response" where
  "rate_handler d u param rating =
     (if t_role u \<noteq> USER then
        (d, Response 403 (ErrorBody ''Only normal users can rate stores''))
      else if \<not> js_truthy rating \<or> js_lt rating 1 \<or> js_gt rating 5 then
        (d, Response 400 (ErrorBody ''Rating must be between 1 and 5''))
      else
        (case param of
           None \<Rightarrow> (d, Response 500 (Caught PrismaValidation))
         | Some storeId \<Rightarrow>
             (case store_findUnique d storeId of
                None \<Rightarrow>
                  if int32 storeId then (d, Response 404 (ErrorBody ''Store not found''))
                  else (d, Response 500 (Caught PrismaValidation))
              | Some _ \<Rightarrow>
                  (case rating_findUnique d storeId (t_id u) of
                     Some existingRating \<Rightarrow>
                       (case rating_update d (r_id existingRating) rating of
                          Inl e \<Rightarrow> (d, Response 500 (Caught e))
                        | Inr (d', updatedRating) \<Rightarrow> (d', Response 200 (RatingBody updatedRating)))
                   | None \<Rightarrow>
                       (case rating_create d rating storeId (t_id u) of
                          Inl (e, d') \<Rightarrow> (d', Response 500 (Caught e))
                        | Inr (d', newRating) \<Rightarrow> (d', Response 200 (RatingBody newRating)))))))"

section \<open>Login\<close>

text \<open>
  \<open>POST /login\<close>. \<open>compare\<close> is \<open>bcrypt.compare\<close>, \<open>secret\<close> is \<open>JWT_SECRET\<close> and \<open>now\<close> the
  time of the request.
\<close>

definition login_handler ::
  "(string \<Rightarrow> string \<Rightarrow> bool) \<Rightarrow> string \<Rightarrow> nat \<Rightarrow> db \<Rightarrow> string option \<Rightarrow> string option
     \<Rightarrow> db \<times> response" where
  "login_handler compare secret now d email password =
     (if \<not> validateEmail email then (d, Response 400 (ErrorBody ''Invalid email format''))
      else
        (case email of
           None \<Rightarrow> (d, Response 500 (Caught PrismaValidation))
         | Some e \<Rightarrow>
             (case user_findUnique_email d e of
                None \<Rightarrow> (d, Response 400 (ErrorBody ''User not found''))
              | Some user \<Rightarrow>
                  (case password of
                     None \<Rightarrow> (d, Response 500 (Caught IllegalArguments))
                   | Some p \<Rightarrow>
                       if \<not> compare p (u_password user) then
                         (d, Response 400 (ErrorBody ''Invalid password''))
                       else
                         (d, Response 200
                               (LoginBody (jwt_sign secret now (u_id user) (u_role user)) user))))))"

section \<open>Users (admin only)\<close>

text \<open>
  \<open>PUT /admin/users/:id\<close>. After the validators have passed, name and email are
  strings; a missing one would be refused by the Prisma client.
\<close>

definition update_user_handler ::
  "db \<Rightarrow> int option \<Rightarrow> string option \<Rightarrow> string option \<Rightarrow> string option \<Rightarrow> db \<times> response" where
  "update_user_handler d param name email role =
     (if \<not> validateName name then (d, Response 400 (ErrorBody ''Name must be 20-60 characters''))
      else if \<not> validateEmail email then (d, Response 400 (ErrorBody ''Invalid email format''))
      else
        (case role_of_string role of
           None \<Rightarrow> (d, Response 400 (ErrorBody ''Invalid role''))
         | Some r \<Rightarrow>
             (case (param, name, email) of
                (Some userId, Some n, Some e) \<Rightarrow>
                  (case user_update d userId n e r of
                     Inl x \<Rightarrow>
                       if x = P2002 then (d, Response 400 (ErrorBody ''Email already exists''))
                       else (d, Response 500 (Caught x))
                   | Inr (d', user) \<Rightarrow> (d', Response 200 (UserUpdated user)))
              | _ \<Rightarrow> (d, Response 500 (Caught PrismaValidation)))))"

text \<open>
  \<open>DELETE /admin/users/:id\<close>. For an id without a user \<open>findUnique\<close> gives \<open>null\<close>, and
  reading \<open>user._count\<close> throws.
\<close>

definition delete_user_handler :: "db \<Rightarrow> int option \<Rightarrow> db \<times> response" where
  "delete_user_handler d param =
     (case param of
        None \<Rightarrow> (d, Response 500 (Caught PrismaValidation))
      | Some userId \<Rightarrow>
          (case user_findUnique d userId of
             None \<Rightarrow> (d, Response 500 (Caught TypeError))
           | Some user \<Rightarrow>
               if 0 < count_stores d userId \<or> 0 < count_ratings d userId then
                 (d, Response 400 (ErrorBody ''Cannot delete user with stores or ratings''))
               else
                 (case user_delete d userId of
                    Inl x \<Rightarrow> (d, Response 500 (Caught x))
                  | Inr d' \<Rightarrow> (d', Response 200 (MessageBody ''User deleted successfully'')))))"

section \<open>Stores (admin only)\<close>

text \<open>
  \<open>POST /stores\<close> and \<open>PUT /admin/stores/:id\<close>. \<open>ownerId\<close> goes to \<open>findUnique\<close> as it came
  in the body: when the Prisma client cannot read it as a key, the call throws and the
  request ends in the handler's \<open>catch\<close>.
\<close>

definition create_store_handler ::
  "db \<Rightarrow> string option \<Rightarrow> string option \<Rightarrow> jsid \<Rightarrow> db \<times> response" where
  "create_store_handler d name address ownerId =
     (if \<not> validateName name then (d, Response 400 (ErrorBody ''Name must be 20-60 characters''))
      else if \<not> validateAddress address then
        (d, Response 400 (ErrorBody ''Address must be up to 400 characters''))
      else
        (case prisma_id ownerId of
           None \<Rightarrow> (d, Response 500 (Caught PrismaValidation))
         | Some oid \<Rightarrow>
             (case user_findUnique d oid of
                None \<Rightarrow>
                  (d, Response 400 (ErrorBody ''Invalid owner ID or user is not a store owner''))
              | Some owner \<Rightarrow>
                  if u_role owner \<noteq> OWNER then
                    (d, Response 400 (ErrorBody ''Invalid owner ID or user is not a store owner''))
                  else
                    (case (name, address) of
                       (Some n, Some a) \<Rightarrow>
                         (case store_create d n a oid of
                            Inl (x, d') \<Rightarrow> (d', Response 500 (Caught x))
                          | Inr (d', s) \<Rightarrow> (d', Response 200 (StoreBody s)))
                     | _ \<Rightarrow> (d, Response 500 (Caught PrismaValidation))))))"

definition update_store_handler ::
  "db \<Rightarrow> int option \<Rightarrow> string option \<Rightarrow> string option \<Rightarrow> jsid \<Rightarrow> db \<times> response" where
  "update_store_handler d param name address ownerId =
     (if \<not> validateName name then (d, Response 400 (ErrorBody ''Name must be 20-60 characters''))
      else if \<not> validateAddress address then
        (d, Response 400 (ErrorBody ''Address must be up to 400 characters''))
      else
        (case prisma_id ownerId of
           None \<Rightarrow> (d, Response 500 (Caught PrismaValidation))
         | Some oid \<Rightarrow>
             (case user_findUnique d oid of
                None \<Rightarrow>
                  (d, Response 400 (ErrorBody ''Invalid owner ID or user is not a store owner''))
              | Some owner \<Rightarrow>
                  if u_role owner \<noteq> OWNER then
                    (d, Response 400 (ErrorBody ''Invalid owner ID or user is not a store owner''))
                  else
                    (case (param, name, address) of
                       (Some storeId, Some n, Some a) \<Rightarrow>
                         (case store_update d storeId n a oid of
                            Inl x \<Rightarrow> (d, Response 500 (Caught x))
                          | Inr (d', s) \<Rightarrow> (d', Response 200 (StoreUpdated s)))
                     | _ \<Rightarrow> (d, Response 500 (Caught PrismaValidation))))))"

text \<open>
  \<open>DELETE /admin/stores/:id\<close>: the ratings of the store first, then the store. When the
  second call throws, the first has been done.
\<close>

definition delete_store_handler :: "db \<Rightarrow> int option \<Rightarrow> db \<times> response" where
  "delete_store_handler d param =
     (case param of
        None \<Rightarrow> (d, Response 500 (Caught PrismaValidation))
      | Some storeId \<Rightarrow>
          (let d1 = rating_deleteMany d storeId
           in case store_delete d1 storeId of
                Inl x \<Rightarrow> (d1, Response 500 (Caught x))
              | Inr d2 \<Rightarrow> (d2, Response 200 (MessageBody ''Store deleted successfully''))))"

section \<open>Listing stores with their aggregate\<close>

text \<open>
  The callback of \<open>stores.map\<close>, the same in \<open>GET /stores\<close>, \<open>GET /admin/stores\<close> and
  \<open>GET /owner/stores\<close>: \<open>reduce\<close> adds the ratings up from 0, the sum is divided by the
  length when there is a rating, and the average is 0 when there is none.
\<close>

definition avg :: "rating list \<Rightarrow> rat" where
  "avg rs =
     (if 0 < length rs
      then js_div (foldl (\<lambda>a r. js_add a (of_int (r_rating r))) 0 rs) (of_nat (length rs))
      else 0)"

definition with_aggregate :: "store \<Rightarrow> rating list \<Rightarrow> store_view" where
  "with_aggregate s rs =
     \<lparr>v_store = s, v_ratings = rs, v_averageRating = toFixed1 (avg rs),
      v_totalRatings = length rs\<rparr>"

text \<open>
  \<open>GET /stores\<close> and \<open>GET /admin/stores\<close>. \<open>found\<close> stands for the stores the database
  answers for the search clause, in the order it answers them.
\<close>

definition get_stores :: "db \<Rightarrow> store list \<Rightarrow> db \<times> response" where
  "get_stores d found =
     (d, Response 200 (StoreList (map (\<lambda>s. with_aggregate s (include_ratings d s)) found)))"

text \<open>\<open>GET /owner/stores\<close>: the stores whose \<open>ownerId\<close> is \<open>req.user.id\<close>.\<close>

definition owner_stores_handler :: "db \<Rightarrow> token \<Rightarrow> db \<times> response" where
  "owner_stores_handler d u =
     (d, Response 200
           (StoreList (map (\<lambda>s. with_aggregate s (include_ratings d s))
                         (filter (\<lambda>s. s_ownerId s = t_id u) (stores d)))))"

section \<open>The admin dashboard\<close>

text \<open>
  \<open>groupBy\<close> answers one group for every role that has a user. \<open>orderBy: { ratings:
  { _count: 'desc' } }, take: 5\<close> is a stable sort of the storage order by falling
  number of ratings, cut after five rows: which of several stores with as many ratings
  comes first is the database's choice. \<open>store.owner.name\<close> throws when the owner's row
  is missing.
\<close>

definition usersByRole_groups :: "db \<Rightarrow> (role \<times> nat) list" where
  "usersByRole_groups d =
     filter (\<lambda>(r, n). 0 < n)
       (map (\<lambda>r. (r, length (filter (\<lambda>u. u_role u = r) (users d)))) [USER, OWNER, ADMIN])"

definition top_stores_query :: "db \<Rightarrow> store list" where
  "top_stores_query d =
     take 5 (sort_key (\<lambda>s. - int (length (include_ratings d s))) (stores d))"

definition top_store_entry :: "db \<Rightarrow> store \<Rightarrow> top_store option" where
  "top_store_entry d s =
     (case user_findUnique d (s_ownerId s) of
        None \<Rightarrow> None
      | Some owner \<Rightarrow>
          Some \<lparr>ts_id = s_id s, ts_name = s_name s,
                ts_averageRating = toFixed1 (avg (include_ratings d s)),
                ts_totalRatings = length (include_ratings d s), ts_owner = u_name owner\<rparr>)"

fun those_entries :: "'a option list \<Rightarrow> 'a list option" where
  "those_entries [] = Some []"
| "those_entries (None # xs) = None"
| "those_entries (Some x # xs) = (case those_entries xs of None \<Rightarrow> None | Some ys \<Rightarrow> Some (x # ys))"

definition dashboard_handler :: "db \<Rightarrow> db \<times> response" where
  "dashboard_handler d =
     (case those_entries (map (top_store_entry d) (top_stores_query d)) of
        None \<Rightarrow> (d, Response 500 (Caught TypeError))
      | Some tops \<Rightarrow>
          (d, Response 200
                (DashboardBody
                   \<lparr>totalUsers = length (users d), totalStores = length (stores d),
                    totalRatings = length (ratings d), usersByRole = usersByRole_groups d,
                    topStores = tops\<rparr>)))"

section \<open>Routes\<close>

text \<open>A route runs its middleware in order; the first that answers ends the request.\<close>

definition authenticated ::
  "string \<Rightarrow> nat \<Rightarrow> authorization \<Rightarrow> db \<Rightarrow> (token \<Rightarrow> db \<times> response) \<Rightarrow> db \<times> response" where
  "authenticated secret now h d k =
     (case authMiddleware secret now h of Inl r \<Rightarrow> (d, r) | Inr u \<Rightarrow> k u)"

definition admin_only ::
  "string \<Rightarrow> nat \<Rightarrow> authorization \<Rightarrow> db \<Rightarrow> (token \<Rightarrow> db \<times> response) \<Rightarrow> db \<times> response" where
  "admin_only secret now h d k =
     authenticated secret now h d
       (\<lambda>u. case adminMiddleware u of Some r \<Rightarrow> (d, r) | None \<Rightarrow> k u)"

definition post_stores_id_rate ::
  "string \<Rightarrow> nat \<Rightarrow> authorization \<Rightarrow> db \<Rightarrow> int option \<Rightarrow> jsval \<Rightarrow> db \<times> response" where
  "post_stores_id_rate secret now h d param rating =
     authenticated secret now h d (\<lambda>u. rate_handler d u param rating)"

definition put_admin_users_id ::
  "string \<Rightarrow> nat \<Rightarrow> authorization \<Rightarrow> db \<Rightarrow> int option \<Rightarrow> string option \<Rightarrow> string option
     \<Rightarrow> string option \<Rightarrow> db \<times> response" where
  "put_admin_users_id secret now h d param name email role =
     admin_only secret now h d (\<lambda>u. update_user_handler d param name email role)"

definition delete_admin_users_id ::
  "string \<Rightarrow> nat \<Rightarrow> authorization \<Rightarrow> db \<Rightarrow> int option \<Rightarrow> db \<times> response" where
  "delete_admin_users_id secret now h d param =
     admin_only secret now h d (\<lambda>u. delete_user_handler d param)"

definition post_stores ::
  "string \<Rightarrow> nat \<Rightarrow> authorization \<Rightarrow> db \<Rightarrow> string option \<Rightarrow> string option \<Rightarrow> jsid
     \<Rightarrow> db \<times> response" where
  "post_stores secret now h d name address ownerId =
     admin_only secret now h d (\<lambda>u. create_store_handler d name address ownerId)"

definition put_admin_stores_id ::
  "string \<Rightarrow> nat \<Rightarrow> authorization \<Rightarrow> db \<Rightarrow> int option \<Rightarrow> string option \<Rightarrow> string option
     \<Rightarrow> jsid \<Rightarrow> db \<times> response" where
  "put_admin_stores_id secret now h d param name address ownerId =
     admin_only secret now h d (\<lambda>u. update_store_handler d param name address ownerId)"

definition delete_admin_stores_id ::
  "string \<Rightarrow> nat \<Rightarrow> authorization \<Rightarrow> db \<Rightarrow> int option \<Rightarrow> db \<times> response" where
  "delete_admin_stores_id secret now h d param =
     admin_only secret now h d (\<lambda>u. delete_store_handler d param)"

definition get_admin_dashboard ::
  "string \<Rightarrow> nat \<Rightarrow> authorization \<Rightarrow> db \<Rightarrow> db \<times> response" where
  "get_admin_dashboard secret now h d = admin_only secret now h d (\<lambda>u. dashboard_handler d)"

definition get_owner_stores ::
  "string \<Rightarrow> nat \<Rightarrow> authorization \<Rightarrow> db \<Rightarrow> db \<times> response" where
  "get_owner_stores secret now h d =
     authenticated secret now h d
       (\<lambda>u. case ownerMiddleware u of Some r \<Rightarrow> (d, r) | None \<Rightarrow> owner_stores_handler d u)"

section \<open>Example data\<close>

definition alice :: user where
  "alice = \<lparr>u_id = 1, u_name = ''Alice Administrator Example'', u_email = ''alice@example.com'',
            u_password = ''hash-a'', u_role = ADMIN, u_createdAt = 0\<rparr>"

definition olive :: user where
  "olive = \<lparr>u_id = 2, u_name = ''Olive Owner Of The Store'', u_email = ''olive@example.com'',
            u_password = ''hash-o'', u_role = OWNER, u_createdAt = 0\<rparr>"

definition uma :: user where
  "uma = \<lparr>u_id = 3, u_name = ''Uma Ordinary User Example'', u_email = ''uma@example.com'',
          u_password = ''hash-u'', u_role = USER, u_createdAt = 0\<rparr>"

definition ursula :: user where
  "ursula = \<lparr>u_id = 4, u_name = ''Ursula Second User Example'', u_email = ''ursula@example.com'',
             u_password = ''hash-v'', u_role = USER, u_createdAt = 0\<rparr>"

definition ulrich :: user where
  "ulrich = \<lparr>u_id = 5, u_name = ''Ulrich Third User Example'', u_email = ''ulrich@example.com'',
             u_password = ''hash-w'', u_role = USER, u_createdAt = 0\<rparr>"

definition shop :: store where
  "shop = \<lparr>s_id = 10, s_name = ''The Corner Shop Of Examples'', s_address = ''1 Main Street'',
           s_ownerId = 2\<rparr>"

definition kiosk :: store where
  "kiosk = \<lparr>s_id = 11, s_name = ''The Kiosk At The Station'', s_address = ''2 Station Road'',
            s_ownerId = 2\<rparr>"

definition db0 :: db where
  "db0 = \<lparr>users = [alice, olive, uma], stores = [shop], ratings = [],
          store_seq = 11, rating_seq = 100\<rparr>"

definition rated :: "int \<Rightarrow> int \<Rightarrow> int \<Rightarrow> int \<Rightarrow> rating" where
  "rated i v sid uid = \<lparr>r_id = i, r_rating = v, r_storeId = sid, r_userId = uid\<rparr>"

text \<open>Two stores; the first has the ratings 5, 4 and 3, the second has none.\<close>

definition db1 :: db where
  "db1 = \<lparr>users = [alice, olive, uma, ursula, ulrich], stores = [shop, kiosk],
          ratings = [rated 100 5 10 3, rated 101 4 10 4, rated 102 3 10 5],
          store_seq = 12, rating_seq = 103\<rparr>"

definition branch :: "int \<Rightarrow> store" where
  "branch i = \<lparr>s_id = i, s_name = ''A Branch Of The Corner Shop'', s_address = ''3 High Street'',
               s_ownerId = 2\<rparr>"

text \<open>Six stores with 1, 0, 2, 0, 3 and 1 ratings.\<close>

definition db2 :: db where
  "db2 = \<lparr>users = [alice, olive, uma, ursula, ulrich],
          stores = [branch 10, branch 11, branch 12, branch 13, branch 14, branch 15],
          ratings = [rated 100 5 10 3, rated 101 4 12 3, rated 102 2 12 4, rated 103 5 14 3,
                     rated 104 4 14 4, rated 105 3 14 5, rated 106 1 15 5],
          store_seq = 16, rating_seq = 107\<rparr>"

text \<open>An entry of the dashboard for a branch.\<close>

definition top :: "int \<Rightarrow> rat \<Rightarrow> nat \<Rightarrow> top_store" where
  "top i a n = \<lparr>ts_id = i, ts_name = ''A Branch Of The Corner Shop'', ts_averageRating = a,
               ts_totalRatings = n, ts_owner = ''Olive Owner Of The Store''\<rparr>"

text \<open>A stand-in for \<open>bcrypt.compare\<close>: the hash of a password is \<open>hash-\<close> and the password.\<close>

definition compare0 :: "string \<Rightarrow> string \<Rightarrow> bool" where
  "compare0 p h = (h = ''hash-'' @ p)"

text \<open>The tables after an admin has given \<open>uma\<close> the role OWNER.\<close>

definition db0_promoted :: db where
  "db0_promoted = db0\<lparr>users := [alice, olive, uma\<lparr>u_role := OWNER\<rparr>]\<rparr>"

definition tok :: "int \<Rightarrow> role \<Rightarrow> token" where
  "tok i r = jwt_sign ''super-secret-key'' 0 i r"

section \<open>Properties of the numbers\<close>

lemma pow2_powi: "pow2 e = 2 powi e"
  by (simp add: pow2_def power_int_def power_one_over inverse_eq_divide)

lemma pow2_pos: "0 < pow2 e"
  by (simp add: pow2_powi)

lemma pow2_less_power:
  assumes "pow2 e < 2 ^ k"
  shows "e < int k"
proof -
  have "(2::rat) powi e < 2 powi (int k)"
    using assms by (simp add: pow2_powi)
  then show ?thesis
    by (rule power_int_le_imp_less_exp [rotated]) simp_all
qed

lemma exponent_le:
  assumes "0 < q"
  shows "pow2 (exponent q) \<le> q"
proof -
  obtain a b where ab: "quotient_of q = (a, b)" by (cases "quotient_of q")
  then have b: "0 < b" and q: "q = of_int a / of_int b"
    using quotient_of_denom_pos quotient_of_div by blast+
  with assms have a: "0 < a"
    by (simp add: zero_less_divide_iff)
  let ?k = "bitlen a - bitlen b"
  have "pow2 (?k - 1) \<le> q"
  proof -
    have la: "(2::int) ^ nat (bitlen a - 1) \<le> a" and lb: "b < 2 ^ nat (bitlen b)"
      using bitlen_bounds [OF a] bitlen_bounds [OF b] by simp_all
    have a1: "1 \<le> bitlen a" using a bitlen_eq_zero_iff [of a] bitlen_nonneg [of a] by linarith
    have b1: "0 \<le> bitlen b" by (rule bitlen_nonneg)
    have "(of_int (2 ^ nat (bitlen a - 1)) :: rat) \<le> of_int a"
      using la by (simp only: of_int_le_iff)
    then have A: "(2::rat) powi (bitlen a - 1) \<le> of_int a"
      using a1 by (simp add: power_int_nonneg_exp)
    have "(of_int b :: rat) < of_int (2 ^ nat (bitlen b))"
      using lb by (simp only: of_int_less_iff)
    then have B: "of_int b \<le> (2::rat) powi (bitlen b)"
      using b1 by (simp add: power_int_nonneg_exp)
    have C: "(0::rat) < of_int b" "(0::rat) \<le> 2 powi (bitlen a - 1)"
      using b by simp_all
    note A B
    moreover note C
    ultimately have "(2::rat) powi (bitlen a - 1) / 2 powi (bitlen b) \<le> of_int a / of_int b"
      using a by (intro frac_le) simp_all
    moreover have "(2::rat) powi (bitlen a - 1) / 2 powi (bitlen b) = 2 powi (?k - 1)"
      by (simp add: power_int_diff)
    ultimately show ?thesis by (simp add: pow2_powi q)
  qed
  then show ?thesis
    by (simp add: exponent_def ab Let_def)
qed

lemma exponent_less:
  assumes "0 < q"
  shows "q < pow2 (exponent q + 1)"
proof -
  obtain a b where ab: "quotient_of q = (a, b)" by (cases "quotient_of q")
  then have b: "0 < b" and q: "q = of_int a / of_int b"
    using quotient_of_denom_pos quotient_of_div by blast+
  with assms have a: "0 < a"
    by (simp add: zero_less_divide_iff)
  let ?k = "bitlen a - bitlen b"
  have "q < pow2 (?k + 1)"
  proof -
    have la: "a < 2 ^ nat (bitlen a)" and lb: "(2::int) ^ nat (bitlen b - 1) \<le> b"
      using bitlen_bounds [OF a] bitlen_bounds [OF b] by simp_all
    have a1: "0 \<le> bitlen a" by (rule bitlen_nonneg)
    have b1: "1 \<le> bitlen b" using b bitlen_eq_zero_iff [of b] bitlen_nonneg [of b] by linarith
    have "(of_int a :: rat) < of_int (2 ^ nat (bitlen a))"
      using la by (simp only: of_int_less_iff)
    then have A: "of_int a < (2::rat) powi (bitlen a)"
      using a1 by (simp add: power_int_nonneg_exp)
    have "(of_int (2 ^ nat (bitlen b - 1)) :: rat) \<le> of_int b"
      using lb by (simp only: of_int_le_iff)
    then have B: "(2::rat) powi (bitlen b - 1) \<le> of_int b"
      using b1 by (simp add: power_int_nonneg_exp)
    have "of_int a / of_int b < (2::rat) powi (bitlen a) / 2 powi (bitlen b - 1)"
      using A B a by (intro frac_less) simp_all
    moreover have "(2::rat) powi (bitlen a) / 2 powi (bitlen b - 1) = 2 powi (?k + 1)"
      by (simp add: power_int_diff [symmetric] algebra_simps)
    ultimately show ?thesis by (simp add: pow2_powi q)
  qed
  moreover have "pow2 ?k \<le> pow2 (?k + 1)"
    unfolding pow2_powi by (rule power_int_increasing) simp_all
  ultimately show ?thesis
    by (auto simp: exponent_def ab Let_def)
qed

lemma round_half_even_err: "\<bar>of_int (round_half_even y) - y\<bar> \<le> 1 / 2"
proof -
  have "of_int \<lfloor>y\<rfloor> \<le> y" "y < of_int \<lfloor>y\<rfloor> + 1" by linarith+
  then show ?thesis
    by (auto simp: round_half_even_def Let_def)
qed

lemma round_half_even_of_int: "round_half_even (of_int n) = n"
  by (simp add: round_half_even_def)

lemma fl_of_int:
  assumes "0 \<le> n" "n < 2 ^ 53"
  shows "fl (of_int n) = of_int n"
proof (cases "n = 0")
  case True
  then show ?thesis by (simp add: fl_def)
next
  case False
  with assms have n: "0 < n" by simp
  let ?e = "exponent (of_int n)"
  have "pow2 ?e \<le> of_int n" using n by (intro exponent_le) simp
  also have "(of_int n :: rat) < of_int (2 ^ 53)"
    using assms(2) by (simp only: of_int_less_iff)
  finally have "pow2 ?e < 2 ^ 53" by simp
  then have e: "?e < 53"
    using pow2_less_power [of ?e 53] by simp
  define m where "m = nat (52 - ?e)"
  have u: "pow2 (?e - 52) = 1 / 2 ^ m"
    using e by (simp add: pow2_def m_def)
  have "\<bar>of_int n :: rat\<bar> / pow2 (?e - 52) = of_int (n * 2 ^ m)"
    using n by (simp add: u)
  then have "round_half_even (\<bar>of_int n :: rat\<bar> / pow2 (?e - 52)) = n * 2 ^ m"
    by (simp only: round_half_even_of_int)
  then show ?thesis
    using n False by (simp add: fl_def Let_def u)
qed

lemma fl_err:
  assumes "1 \<le> q" "q \<le> 5"
  shows "\<bar>fl q - q\<bar> \<le> 1 / 2 ^ 51"
proof -
  let ?e = "exponent q"
  let ?u = "pow2 (?e - 52)"
  have q0: "0 < q" using assms by simp
  have "pow2 ?e \<le> q" using q0 by (rule exponent_le)
  also have "q < 2 ^ 3" using assms by simp
  finally have e: "?e < 3"
    using pow2_less_power [of ?e 3] by simp
  have upos: "0 < ?u" by (rule pow2_pos)
  have ule: "?u \<le> 1 / 2 ^ 50"
  proof -
    have "(2::rat) powi (?e - 52) \<le> 2 powi (- 50)"
      using e by (intro power_int_increasing) simp_all
    then show ?thesis by (simp add: pow2_powi power_int_minus_divide)
  qed
  have "fl q - q = (of_int (round_half_even (q / ?u)) - q / ?u) * ?u"
    using q0 upos by (simp add: fl_def Let_def field_simps)
  then have "\<bar>fl q - q\<bar> = \<bar>of_int (round_half_even (q / ?u)) - q / ?u\<bar> * ?u"
    using upos by (simp add: abs_mult)
  also have "\<dots> \<le> (1 / 2) * ?u"
    using upos round_half_even_err [of "q / ?u"] by (intro mult_right_mono) simp_all
  also have "\<dots> \<le> (1 / 2) * (1 / 2 ^ 50)"
    using ule by simp
  finally show ?thesis by simp
qed


lemma reduce_exact:
  assumes "\<forall>r\<in>set rs. 1 \<le> r_rating r \<and> r_rating r \<le> 5" "0 \<le> s" "s + 5 * int (length rs) < 2 ^ 53"
  shows "foldl (\<lambda>a r. js_add a (of_int (r_rating r))) (of_int s) rs = of_int (s + sum_list (map r_rating rs))"
  using assms
proof (induction rs arbitrary: s)
  case Nil
  then show ?case by simp
next
  case (Cons r rs)
  have r: "1 \<le> r_rating r" "r_rating r \<le> 5" using Cons.prems(1) by simp_all
  have "js_add (of_int s) (of_int (r_rating r)) = fl (of_int (s + r_rating r))"
    by (simp add: js_add_def)
  also have "\<dots> = of_int (s + r_rating r)"
    using r Cons.prems(2,3) by (intro fl_of_int) simp_all
  finally have step: "js_add (of_int s) (of_int (r_rating r)) = of_int (s + r_rating r)" .
  have "foldl (\<lambda>a r. js_add a (of_int (r_rating r))) (of_int (s + r_rating r)) rs
          = of_int (s + r_rating r + sum_list (map r_rating rs))"
    using r Cons.prems by (intro Cons.IH) simp_all
  then show ?case by (simp add: step add.assoc)
qed

lemma sum_bounds:
  assumes "\<forall>r\<in>set rs. 1 \<le> r_rating r \<and> r_rating r \<le> (5::int)"
  shows "int (length rs) \<le> sum_list (map r_rating rs) \<and> sum_list (map r_rating rs) \<le> 5 * int (length rs)"
  using assms by (induction rs) auto

lemma nearest_tenth:
  fixes s c n :: int and x :: rat
  assumes c: "0 < c" "c < 2 ^ 32"
    and x: "\<bar>x - of_int s / of_int c\<bar> \<le> 1 / 2 ^ 51"
    and n: "n = \<lfloor>x * 10 + 1 / 2\<rfloor>"
  shows "\<bar>of_int n / 10 - of_int s / of_int c :: rat\<bar> \<le> 1 / 20"
proof -
  let ?q = "of_int s / of_int c :: rat"
  have cpos: "(0::rat) < of_int c" using c by simp
  have n1: "of_int n \<le> x * 10 + 1 / 2" and n2: "x * 10 + 1 / 2 < of_int n + 1"
    unfolding n by linarith+
  have cinv: "1 / 2 ^ 32 < 1 / (of_int c :: rat)"
  proof -
    have "(of_int c :: rat) < of_int (2 ^ 32)" using c(2) by (simp only: of_int_less_iff)
    then show ?thesis using cpos by (simp add: field_simps)
  qed
  have lower: "(2 * of_int n - 1) \<le> 20 * ?q"
  proof (rule ccontr)
    assume "\<not> (2 * of_int n - 1) \<le> 20 * ?q"
    then have "20 * of_int s < (2 * of_int n - 1) * (of_int c :: rat)"
      using cpos by (simp add: field_simps)
    then have "(of_int (20 * s) :: rat) < of_int ((2 * n - 1) * c)" by simp
    then have "20 * s < (2 * n - 1) * c" by (simp only: of_int_less_iff)
    then have "20 * s + 1 \<le> (2 * n - 1) * c" by simp
    then have "(of_int (20 * s + 1) :: rat) \<le> of_int ((2 * n - 1) * c)" by (simp only: of_int_le_iff)
    then have "(of_int (20 * s + 1) :: rat) / of_int c \<le> of_int ((2 * n - 1) * c) / of_int c"
      using cpos by (intro divide_right_mono) simp_all
    moreover have "(of_int (20 * s + 1) :: rat) / of_int c = 20 * ?q + 1 / of_int c"
      by (simp add: add_divide_distrib)
    moreover have "(of_int ((2 * n - 1) * c) :: rat) / of_int c = 2 * of_int n - 1"
      using cpos by simp
    ultimately have "20 * ?q + 1 / of_int c \<le> 2 * of_int n - 1"
      by simp
    with n1 x cinv show False by (simp add: abs_le_iff) 
  qed
  have upper: "20 * ?q \<le> (2 * of_int n + 1)"
  proof (rule ccontr)
    assume "\<not> 20 * ?q \<le> (2 * of_int n + 1)"
    then have "(2 * of_int n + 1) * (of_int c :: rat) < 20 * of_int s"
      using cpos by (simp add: field_simps)
    then have "(of_int ((2 * n + 1) * c) :: rat) < of_int (20 * s)" by simp
    then have "(2 * n + 1) * c < 20 * s" by (simp only: of_int_less_iff)
    then have "(2 * n + 1) * c + 1 \<le> 20 * s" by simp
    then have "(of_int ((2 * n + 1) * c + 1) :: rat) \<le> of_int (20 * s)" by (simp only: of_int_le_iff)
    then have "(of_int ((2 * n + 1) * c + 1) :: rat) / of_int c \<le> of_int (20 * s) / of_int c"
      using cpos by (intro divide_right_mono) simp_all
    moreover have "(of_int ((2 * n + 1) * c + 1) :: rat) / of_int c = 2 * of_int n + 1 + 1 / of_int c"
      using cpos by (simp add: add_divide_distrib)
    ultimately have "2 * of_int n + 1 + 1 / of_int c \<le> 20 * ?q"
      by simp
    with n2 x cinv show False by (simp add: abs_le_iff)
  qed
  from lower upper show ?thesis by linarith
qed


lemma toFixed1_avg_nearest:
  assumes vals: "\<forall>r\<in>set rs. 1 \<le> r_rating r \<and> r_rating r \<le> 5"
    and len: "0 < length rs" "length rs < 2 ^ 32"
  shows "\<exists>n::int. toFixed1 (avg rs) = of_int n / 10
           \<and> \<bar>of_int n / 10 - of_int (sum_list (map r_rating rs)) / of_nat (length rs) :: rat\<bar> \<le> 1 / 20"
proof -
  let ?s = "sum_list (map r_rating rs)"
  let ?c = "int (length rs)"
  let ?q = "of_int ?s / of_int ?c :: rat"
  have c: "0 < ?c" "?c < 2 ^ 32" using len by simp_all
  have sb: "?c \<le> ?s" "?s \<le> 5 * ?c" using sum_bounds [OF vals] by simp_all
  have red: "foldl (\<lambda>a r. js_add a (of_int (r_rating r))) 0 rs = of_int ?s"
    using reduce_exact [OF vals, of 0] c by simp
  have q15: "1 \<le> ?q" "?q \<le> 5"
  proof -
    have "(of_int ?c :: rat) \<le> of_int ?s" "(of_int ?s :: rat) \<le> of_int (5 * ?c)"
      using sb by (simp_all only: of_int_le_iff)
    then show "1 \<le> ?q" "?q \<le> 5" using c by (simp_all add: field_simps)
  qed
  let ?x = "fl ?q"
  have avg: "avg rs = ?x"
    using len by (simp add: avg_def js_div_def red)
  have err: "\<bar>?x - ?q\<bar> \<le> 1 / 2 ^ 51" using q15 by (rule fl_err)
  have small: "(1::rat) / 2 ^ 51 \<le> 1 / 2" by simp
  have "0 < ?x" "?x < 6" using err q15 small by linarith+
  then have xb: "0 < ?x" "?x < 10 ^ 21" by simp_all
  let ?n = "\<lfloor>?x * 10 + 1 / 2\<rfloor>"
  have "toFixed1 (avg rs) = of_int ?n / 10"
    using xb by (simp add: avg toFixed1_def)
  moreover have "\<bar>of_int ?n / 10 - ?q\<bar> \<le> 1 / 20"
    using c err by (intro nearest_tenth) simp_all
  ultimately show ?thesis by auto
qed


section \<open>The example data, evaluated\<close>

lemma prisma_Int_4: "prisma_Int (JNumber 4) = Some 4"
  by (simp add: prisma_Int_def prisma_Int_number_def int32_def)

lemma db0_store_10: "store_findUnique db0 10 = Some shop"
  by (simp add: store_findUnique_def db0_def shop_def)

lemma db0_rating_10_3: "rating_findUnique db0 10 3 = None"
  by (simp add: rating_findUnique_def db0_def)

lemma db0_user_3: "user_findUnique db0 3 = Some uma"
  by (simp add: user_findUnique_def db0_def alice_def olive_def uma_def)

lemma db0_create_4:
  "rating_create db0 (JNumber 4) 10 3
     = Inr (db0\<lparr>ratings := [rated 100 4 10 3], rating_seq := 101\<rparr>, rated 100 4 10 3)"
  by (simp add: rating_create_def prisma_Int_4 db0_store_10 db0_rating_10_3 db0_user_3 rated_def Let_def)
     (simp add: db0_def)

lemma db0_rate_4:
  "rate_handler db0 (tok 3 USER) (Some 10) (JNumber 4)
     = (db0\<lparr>ratings := [rated 100 4 10 3], rating_seq := 101\<rparr>,
        Response 200 (RatingBody (rated 100 4 10 3)))"
  by (simp add: rate_handler_def tok_def jwt_sign_def js_lt_def js_gt_def
      db0_store_10 db0_rating_10_3 db0_create_4)

lemma db1_shop_ratings:
  "include_ratings db1 shop = [rated 100 5 10 3, rated 101 4 10 4, rated 102 3 10 5]"
  by (simp add: include_ratings_def db1_def shop_def rated_def)

lemma db1_kiosk_ratings: "include_ratings db1 kiosk = []"
  by (simp add: include_ratings_def db1_def kiosk_def rated_def)

lemma avg_5_4_3:
  assumes "map r_rating rs = [5, 4, 3]"
  shows "toFixed1 (avg rs) = 4"
proof -
  have len: "length rs = 3" using assms by (metis length_map length_Cons list.size(3) numeral_3_eq_3)
  have vals: "\<forall>r\<in>set rs. 1 \<le> r_rating r \<and> r_rating r \<le> 5"
  proof
    fix r assume "r \<in> set rs"
    then have "r_rating r \<in> set (map r_rating rs)" by simp
    then show "1 \<le> r_rating r \<and> r_rating r \<le> 5" unfolding assms by auto
  qed
  have "foldl (\<lambda>a r. js_add a (of_int (r_rating r))) 0 rs = of_int (sum_list (map r_rating rs))"
    using reduce_exact [OF vals, of 0] len by simp
  then have "foldl (\<lambda>a r. js_add a (of_int (r_rating r))) 0 rs = 12"
    by (simp add: assms)
  then have "avg rs = fl (of_int 4)"
    by (simp add: avg_def len js_div_def)
  also have "\<dots> = 4"
    by (subst fl_of_int) simp_all
  finally have "avg rs = 4" .
  moreover have "\<lfloor>(81::rat) / 2\<rfloor> = 40"
    by (rule floor_unique) simp_all
  ultimately show ?thesis by (simp add: toFixed1_def)
qed

section \<open>Authorization of the rating action\<close>

text \<open>
  C3. For an authenticated caller, rating a store is denied with 403 exactly when the
  role in \<open>req.user\<close> is not USER; a denied request leaves the tables as they were, and
  whether a request is denied depends on the role alone, not on the tables, the store
  or the value submitted.
\<close>

theorem rate_allowed_iff_USER:
  "(t_role u = USER \<longrightarrow> status (snd (rate_handler d u p v)) \<noteq> 403)
   \<and> (t_role u \<noteq> USER \<longrightarrow>
        rate_handler d u p v = (d, Response 403 (ErrorBody ''Only normal users can rate stores'')))
   \<and> (t_role u = t_role u' \<longrightarrow>
        (status (snd (rate_handler d u p v)) = 403)
          = (status (snd (rate_handler d' u' p' v')) = 403))"
proof -
  have allow: "status (snd (rate_handler e w q x)) \<noteq> 403" if "t_role w = USER" for e w q x
    using that
    by (auto simp: rate_handler_def split: option.splits sum.splits)
  have deny: "rate_handler e w q x = (e, Response 403 (ErrorBody ''Only normal users can rate stores''))"
    if "t_role w \<noteq> USER" for e w q x
    using that by (simp add: rate_handler_def)
  show ?thesis
  proof (intro conjI impI)
    assume "t_role u = USER"
    then show "status (snd (rate_handler d u p v)) \<noteq> 403" by (rule allow)
  next
    assume "t_role u \<noteq> USER"
    then show "rate_handler d u p v = (d, Response 403 (ErrorBody ''Only normal users can rate stores''))"
      by (rule deny)
  next
    assume same: "t_role u = t_role u'"
    show "(status (snd (rate_handler d u p v)) = 403)
            = (status (snd (rate_handler d' u' p' v')) = 403)"
    proof (cases "t_role u = USER")
      case True
      with same allow [of u d p v] allow [of u' d' p' v'] show ?thesis by simp
    next
      case False
      with same deny [of u d p v] deny [of u' d' p' v'] show ?thesis by simp
    qed
  qed
qed

theorem rate_allowed_iff_USER_witness:
  "t_role (tok 3 USER) = USER
   \<and> status (snd (rate_handler db0 (tok 3 USER) (Some 10) (JNumber 4))) = 200
   \<and> t_role (tok 2 OWNER) \<noteq> USER
   \<and> rate_handler db0 (tok 2 OWNER) (Some 10) (JNumber 4)
       = (db0, Response 403 (ErrorBody ''Only normal users can rate stores''))
   \<and> rate_handler db0 (tok 1 ADMIN) (Some 10) (JNumber 4)
       = (db0, Response 403 (ErrorBody ''Only normal users can rate stores''))"
  using rate_allowed_iff_USER [of "tok 3 USER" db0 "Some 10" "JNumber 4"]
    rate_allowed_iff_USER [of "tok 2 OWNER" db0 "Some 10" "JNumber 4"]
    rate_allowed_iff_USER [of "tok 1 ADMIN" db0 "Some 10" "JNumber 4"]
  by (simp add: db0_rate_4) (simp add: tok_def jwt_sign_def)

section \<open>The aggregate of a store\<close>

text \<open>
  C2. In every listing a store is reported with \<open>totalRatings\<close> equal to the number of
  ratings that reference it, and with \<open>averageRating\<close> 0 when it has none. When it has
  ratings (each from 1 to 5, fewer than \<open>2 ^ 32\<close> of them), \<open>averageRating\<close> is a
  decimal with one place that lies within one half of a tenth of sum / count, that is
  sum / count rounded to one decimal place. Ratings 5, 4 and 3 give count 3 and
  average 4.0.
\<close>

theorem store_aggregate:
  fixes d :: db and s :: store
  defines "rs \<equiv> include_ratings d s"
  defines "v \<equiv> with_aggregate s rs"
  shows "get_stores d found
      = (d, Response 200 (StoreList (map (\<lambda>s. with_aggregate s (include_ratings d s)) found)))
    \<and> owner_stores_handler d u
      = (d, Response 200 (StoreList (map (\<lambda>s. with_aggregate s (include_ratings d s))
                                     (filter (\<lambda>s. s_ownerId s = t_id u) (stores d)))))
    \<and> v_totalRatings v = length (filter (\<lambda>r. r_storeId r = s_id s) (ratings d))
    \<and> (v_totalRatings v = 0 \<longrightarrow> v_averageRating v = 0)
    \<and> ((\<forall>r\<in>set rs. 1 \<le> r_rating r \<and> r_rating r \<le> 5) \<and> 0 < length rs \<and> length rs < 2 ^ 32
         \<longrightarrow>
         (\<exists>n::int. v_averageRating v = of_int n / 10
            \<and> \<bar>of_int n / 10
                 - of_int (sum_list (map r_rating rs)) / of_nat (v_totalRatings v) :: rat\<bar>
                \<le> 1 / 20))
    \<and> (map r_rating rs = [5, 4, 3] \<longrightarrow> v_totalRatings v = 3 \<and> v_averageRating v = 4)"
proof (intro conjI impI)
  show "get_stores d found
      = (d, Response 200 (StoreList (map (\<lambda>s. with_aggregate s (include_ratings d s)) found)))"
    by (simp add: get_stores_def)
next
  show "owner_stores_handler d u
      = (d, Response 200 (StoreList (map (\<lambda>s. with_aggregate s (include_ratings d s))
                                     (filter (\<lambda>s. s_ownerId s = t_id u) (stores d)))))"
    by (simp add: owner_stores_handler_def)
next
  show "v_totalRatings v = length (filter (\<lambda>r. r_storeId r = s_id s) (ratings d))"
    by (simp add: v_def rs_def with_aggregate_def include_ratings_def)
next
  assume "v_totalRatings v = 0"
  then show "v_averageRating v = 0"
    by (simp add: v_def with_aggregate_def avg_def toFixed1_def)
next
  assume "(\<forall>r\<in>set rs. 1 \<le> r_rating r \<and> r_rating r \<le> 5) \<and> 0 < length rs \<and> length rs < 2 ^ 32"
  then show "\<exists>n::int. v_averageRating v = of_int n / 10
            \<and> \<bar>of_int n / 10
                 - of_int (sum_list (map r_rating rs)) / of_nat (v_totalRatings v) :: rat\<bar>
                \<le> 1 / 20"
    using toFixed1_avg_nearest [of rs] by (simp add: v_def with_aggregate_def)
next
  assume a: "map r_rating rs = [5, 4, 3]"
  then have "length (map r_rating rs) = 3" by simp
  then show "v_totalRatings v = 3" by (simp add: v_def with_aggregate_def)
  show "v_averageRating v = 4" using avg_5_4_3 [OF a] by (simp add: v_def with_aggregate_def)
qed

theorem store_aggregate_witness:
  "get_stores db1 [kiosk, shop]
     = (db1, Response 200 (StoreList
          [\<lparr>v_store = kiosk, v_ratings = [], v_averageRating = 0, v_totalRatings = 0\<rparr>,
           \<lparr>v_store = shop,
              v_ratings = [rated 100 5 10 3, rated 101 4 10 4, rated 102 3 10 5],
              v_averageRating = 4, v_totalRatings = 3\<rparr>]))
   \<and> length (include_ratings db1 shop) < 2 ^ 32
   \<and> \<bar>v_averageRating (with_aggregate shop (include_ratings db1 shop)) - 12 / 3\<bar> \<le> 1 / 20"
  using store_aggregate [of db1 "[kiosk, shop]" "tok 2 OWNER" shop]
    store_aggregate [of db1 "[kiosk, shop]" "tok 2 OWNER" kiosk]
  by (simp add: db1_shop_ratings db1_kiosk_ratings with_aggregate_def rated_def)

text \<open>
  Where sum / count lies halfway between two tenths, the double decides: twenty ratings
  that add up to 87 average 4.35, the nearest double is below it, and 4.3 is reported.
\<close>

lemma toFixed1_87_20: "toFixed1 (fl (87 / 20)) = 43 / 10"
  by code_simp

lemma average_of_a_tie:
  assumes "map r_rating rs = replicate 7 5 @ replicate 13 4"
  shows "toFixed1 (avg rs) = 43 / 10"
proof -
  have len: "length rs = 20"
    using arg_cong [OF assms, of length] by simp
  have vals: "\<forall>r\<in>set rs. 1 \<le> r_rating r \<and> r_rating r \<le> 5"
  proof
    fix r assume "r \<in> set rs"
    then have "r_rating r \<in> set (map r_rating rs)" by simp
    then show "1 \<le> r_rating r \<and> r_rating r \<le> 5" unfolding assms by auto
  qed
  have "foldl (\<lambda>a r. js_add a (of_int (r_rating r))) 0 rs = of_int (sum_list (map r_rating rs))"
    using reduce_exact [OF vals, of 0] len by simp
  then have "foldl (\<lambda>a r. js_add a (of_int (r_rating r))) 0 rs = 87"
    by (simp add: assms sum_list_replicate)
  then have "avg rs = fl (87 / 20)"
    by (simp add: avg_def len js_div_def)
  then show ?thesis by (simp add: toFixed1_87_20)
qed

section \<open>One rating for a user and a store\<close>

lemma find_unique_filter:
  assumes "distinct (map k xs)" "find (\<lambda>x. k x = a) xs = Some e"
  shows "filter (\<lambda>x. k x = a) xs = [e]"
  using assms
proof (induction xs)
  case Nil
  then show ?case by simp
next
  case (Cons x xs)
  show ?case
  proof (cases "k x = a")
    case True
    with Cons.prems have "x = e" and "a \<notin> k ` set xs" by auto
    then have "filter (\<lambda>x. k x = a) xs = []" by (auto simp: filter_empty_conv)
    with True \<open>x = e\<close> show ?thesis by simp
  next
    case False
    with Cons show ?thesis by simp
  qed
qed

lemma find_None_filter: "find P xs = None \<Longrightarrow> filter P xs = []"
  by (simp add: find_None_iff filter_empty_conv)

lemma find_Some_props: "find P xs = Some e \<Longrightarrow> P e \<and> e \<in> set xs"
  by (auto simp: find_Some_iff)

lemma find_id_unique:
  assumes "distinct (map k xs)" "e \<in> set xs"
  shows "find (\<lambda>x. k x = k e) xs = Some e"
  using assms
  by (induction xs) (auto simp: image_iff)

lemma filter_swap: "filter P (filter Q xs) = filter Q (filter P xs)"
  by (induction xs) auto

lemma key_not_in_others:
  assumes "distinct (map k xs)" "e \<in> set xs"
  shows "k e \<notin> k ` set (filter (\<lambda>x. j x \<noteq> j e) xs)"
proof
  assume "k e \<in> k ` set (filter (\<lambda>x. j x \<noteq> j e) xs)"
  then obtain x where x: "x \<in> set xs" "j x \<noteq> j e" "k x = k e" by auto
  from assms(1) have "inj_on k (set xs)" by (simp add: distinct_map)
  with x(1,3) assms(2) have "x = e" by (auto dest: inj_onD)
  with x(2) show False by simp
qed

lemma rate_once:
  assumes wf: "ratings_wf d" and role: "t_role u = USER"
    and store: "store_findUnique d sid \<noteq> None"
    and usr: "user_findUnique d (t_id u) \<noteq> None"
    and v: "1 \<le> v" "v \<le> 5"
  shows "\<exists>d' r. rate_handler d u (Some sid) (JNumber (of_int v)) = (d', Response 200 (RatingBody r))
           \<and> r_rating r = v \<and> r_storeId r = sid \<and> r_userId r = t_id u
           \<and> filter (\<lambda>x. r_storeId x = sid \<and> r_userId x = t_id u) (ratings d') = [r]
           \<and> ratings_wf d' \<and> stores d' = stores d \<and> users d' = users d
           \<and> (\<forall>e. rating_findUnique d sid (t_id u) = Some e \<longrightarrow> r_id r = r_id e)"
proof -
  let ?P = "\<lambda>x. r_storeId x = sid \<and> r_userId x = t_id u"
  have guard: "\<not> (\<not> js_truthy (JNumber (of_int v)) \<or> js_lt (JNumber (of_int v)) 1 \<or> js_gt (JNumber (of_int v)) 5)"
    using v by (auto simp: js_lt_def js_gt_def)
  have pint: "prisma_Int (JNumber (of_int v)) = Some v"
    using v by (simp add: prisma_Int_def prisma_Int_number_def int32_def)
  from wf have ids: "distinct (map r_id (ratings d))"
    and pairs: "distinct (map (\<lambda>r. (r_storeId r, r_userId r)) (ratings d))"
    and fresh: "\<forall>r\<in>set (ratings d). r_id r < rating_seq d"
    by (simp_all add: ratings_wf_def list_all_iff)
  obtain s where s: "store_findUnique d sid = Some s" using store by auto
  show ?thesis
  proof (cases "rating_findUnique d sid (t_id u)")
    case None
    let ?r = "\<lparr>r_id = rating_seq d, r_rating = v, r_storeId = sid, r_userId = t_id u\<rparr>"
    let ?d = "d\<lparr>ratings := ratings d @ [?r], rating_seq := rating_seq d + 1\<rparr>"
    have cr: "rating_create d (JNumber (of_int v)) sid (t_id u) = Inr (?d, ?r)"
      using None s usr by (simp add: rating_create_def pint Let_def)
    have res: "rate_handler d u (Some sid) (JNumber (of_int v)) = (?d, Response 200 (RatingBody ?r))"
      using guard role by (simp add: rate_handler_def s None cr)
    have none: "filter ?P (ratings d) = []"
      using None by (simp add: rating_findUnique_def find_None_filter)
    then have nopair: "(sid, t_id u) \<notin> (\<lambda>r. (r_storeId r, r_userId r)) ` set (ratings d)"
      by (auto simp: filter_empty_conv)
    have "ratings_wf ?d"
      using ids pairs fresh nopair by (auto simp: ratings_wf_def list_all_iff)
    with res none show ?thesis by (simp add: None)
  next
    case (Some e)
    then have fe: "find ?P (ratings d) = Some e" by (simp add: rating_findUnique_def)
    then have e: "?P e" "e \<in> set (ratings d)" using find_Some_props [OF fe] by simp_all
    let ?e = "e\<lparr>r_rating := v\<rparr>"
    let ?others = "filter (\<lambda>x. r_id x \<noteq> r_id e) (ratings d)"
    let ?d = "d\<lparr>ratings := ?others @ [?e]\<rparr>"
    have fid: "find (\<lambda>r. r_id r = r_id e) (ratings d) = Some e"
      using find_id_unique [OF ids e(2)] .
    have up: "rating_update d (r_id e) (JNumber (of_int v)) = Inr (?d, ?e)"
      by (simp add: rating_update_def pint fid)
    have res: "rate_handler d u (Some sid) (JNumber (of_int v))
                 = (?d, Response 200 (RatingBody ?e))"
      using guard role by (simp add: rate_handler_def s Some up)
    have one: "filter ?P (ratings d) = [e]"
      using find_unique_filter [OF pairs, of "(sid, t_id u)" e] fe by simp
    have "filter ?P ?others = filter (\<lambda>x. r_id x \<noteq> r_id e) (filter ?P (ratings d))"
      by (rule filter_swap)
    then have "filter ?P ?others = []" by (simp add: one)
    then have flt: "filter ?P (ratings ?d) = [?e]"
      using e(1) by simp
    have w1: "distinct (map r_id (ratings ?d))"
      using ids by (auto simp: distinct_map_filter)
    have w2: "distinct (map (\<lambda>r. (r_storeId r, r_userId r)) (ratings ?d))"
      using pairs key_not_in_others [OF pairs e(2), of r_id]
      by (simp add: distinct_map_filter)
    have w3: "\<forall>r\<in>set (ratings ?d). r_id r < rating_seq ?d"
      using fresh e(2) by auto
    have "ratings_wf ?d"
      using w1 w2 w3 unfolding ratings_wf_def list_all_iff by blast
    with res flt e show ?thesis by (simp add: Some)
  qed
qed

lemma filter_single_find: "filter P xs = [e] \<Longrightarrow> find P xs = Some e"
  by (induction xs) (auto split: if_splits simp: filter_empty_conv)

text \<open>
  C1. On a ratings table that keeps its key and uniqueness constraints, when a USER
  whose row exists rates an existing store twice, with values from 1 to 5, both
  requests succeed, and afterwards the table holds exactly one row for that store and
  that user: the record the first request returned, with its \<open>id\<close>, and with the value
  of the second request. The second request has updated that row in place.
\<close>

theorem rate_twice_one_row:
  assumes wf: "ratings_wf d" and role: "t_role u = USER"
    and store: "store_findUnique d sid \<noteq> None"
    and usr: "user_findUnique d (t_id u) \<noteq> None"
    and v1: "1 \<le> v1" "v1 \<le> 5" and v2: "1 \<le> v2" "v2 \<le> 5"
  shows "\<exists>d1 r1 d2.
           rate_handler d u (Some sid) (JNumber (of_int v1)) = (d1, Response 200 (RatingBody r1))
           \<and> r_rating r1 = v1
           \<and> rate_handler d1 u (Some sid) (JNumber (of_int v2))
               = (d2, Response 200 (RatingBody (r1\<lparr>r_rating := v2\<rparr>)))
           \<and> filter (\<lambda>x. r_storeId x = sid \<and> r_userId x = t_id u) (ratings d2)
               = [r1\<lparr>r_rating := v2\<rparr>]"
proof -
  let ?P = "\<lambda>x. r_storeId x = sid \<and> r_userId x = t_id u"
  from rate_once [OF wf role store usr v1]
  obtain d1 r1 where
    first: "rate_handler d u (Some sid) (JNumber (of_int v1)) = (d1, Response 200 (RatingBody r1))"
    and r1: "r_rating r1 = v1" "r_storeId r1 = sid" "r_userId r1 = t_id u"
    and one1: "filter ?P (ratings d1) = [r1]"
    and wf1: "ratings_wf d1" and same: "stores d1 = stores d" "users d1 = users d"
    by blast
  have store1: "store_findUnique d1 sid \<noteq> None"
    using store same by (simp add: store_findUnique_def)
  have usr1: "user_findUnique d1 (t_id u) \<noteq> None"
    using usr same by (simp add: user_findUnique_def)
  have found: "rating_findUnique d1 sid (t_id u) = Some r1"
    using filter_single_find [OF one1] by (simp add: rating_findUnique_def)
  from rate_once [OF wf1 role store1 usr1 v2]
  obtain d2 r2 where
    second: "rate_handler d1 u (Some sid) (JNumber (of_int v2)) = (d2, Response 200 (RatingBody r2))"
    and r2: "r_rating r2 = v2" "r_storeId r2 = sid" "r_userId r2 = t_id u"
    and one2: "filter ?P (ratings d2) = [r2]"
    and keep: "\<forall>e. rating_findUnique d1 sid (t_id u) = Some e \<longrightarrow> r_id r2 = r_id e"
    by blast
  from keep found have "r_id r2 = r_id r1" by simp
  with r1 r2 have "r2 = r1\<lparr>r_rating := v2\<rparr>" by (cases r1, cases r2) simp
  with first r1 second one2 show ?thesis by blast
qed

lemma db0_wf: "ratings_wf db0"
  by (simp add: ratings_wf_def db0_def)

lemma db0_rate_4_then_2:
  "rate_handler (db0\<lparr>ratings := [rated 100 4 10 3], rating_seq := 101\<rparr>) (tok 3 USER) (Some 10)
       (JNumber 2)
     = (db0\<lparr>ratings := [rated 100 2 10 3], rating_seq := 101\<rparr>,
        Response 200 (RatingBody (rated 100 2 10 3)))"
  by (simp add: rate_handler_def tok_def jwt_sign_def js_lt_def js_gt_def store_findUnique_def
      rating_findUnique_def rating_update_def prisma_Int_4 prisma_Int_def prisma_Int_number_def
      int32_def rated_def db0_def shop_def)

theorem rate_twice_one_row_witness:
  "ratings_wf db0 \<and> t_role (tok 3 USER) = USER
   \<and> store_findUnique db0 10 = Some shop \<and> user_findUnique db0 (t_id (tok 3 USER)) = Some uma
   \<and> rate_handler db0 (tok 3 USER) (Some 10) (JNumber (of_int 4))
       = (db0\<lparr>ratings := [rated 100 4 10 3], rating_seq := 101\<rparr>,
          Response 200 (RatingBody (rated 100 4 10 3)))
   \<and> rate_handler (db0\<lparr>ratings := [rated 100 4 10 3], rating_seq := 101\<rparr>) (tok 3 USER)
         (Some 10) (JNumber (of_int 2))
       = (db0\<lparr>ratings := [rated 100 2 10 3], rating_seq := 101\<rparr>,
          Response 200 (RatingBody ((rated 100 4 10 3)\<lparr>r_rating := 2\<rparr>)))
   \<and> filter (\<lambda>x. r_storeId x = 10 \<and> r_userId x = t_id (tok 3 USER))
         (ratings (db0\<lparr>ratings := [rated 100 2 10 3], rating_seq := 101\<rparr>))
       = [(rated 100 4 10 3)\<lparr>r_rating := 2\<rparr>]"
proof -
  have t: "t_role (tok 3 USER) = USER" "t_id (tok 3 USER) = 3"
    by (simp_all add: tok_def jwt_sign_def)
  have s: "store_findUnique db0 10 \<noteq> None" and u: "user_findUnique db0 (t_id (tok 3 USER)) \<noteq> None"
    by (simp_all add: db0_store_10 t db0_user_3)
  from rate_twice_one_row [OF db0_wf t(1) s u, of 4 2]
  show ?thesis
    by (simp add: db0_rate_4 db0_rate_4_then_2 db0_wf t db0_store_10 db0_user_3) (simp add: rated_def)
qed

section \<open>Deleting a user\<close>

lemma find_filter_neq_None: "find (\<lambda>x. k x = a) (filter (\<lambda>x. k x \<noteq> a) xs) = None"
  by (simp add: find_None_iff)

text \<open>
  C5. Deleting an existing user is refused with 400, and nothing changes, when the user
  owns a store or has a rating; it succeeds and removes the user's row when the user
  owns no store and has no rating. In both cases the stores and the ratings are left as
  they were: the guard never deletes them.
\<close>

theorem delete_user_guard:
  assumes "user_findUnique d uid = Some usr"
  shows "(0 < count_stores d uid \<or> 0 < count_ratings d uid \<longrightarrow>
            delete_user_handler d (Some uid)
              = (d, Response 400 (ErrorBody ''Cannot delete user with stores or ratings'')))
    \<and> (count_stores d uid = 0 \<and> count_ratings d uid = 0 \<longrightarrow>
            delete_user_handler d (Some uid)
              = (d\<lparr>users := filter (\<lambda>x. u_id x \<noteq> uid) (users d)\<rparr>,
                 Response 200 (MessageBody ''User deleted successfully''))
            \<and> user_findUnique (fst (delete_user_handler d (Some uid))) uid = None)
    \<and> stores (fst (delete_user_handler d (Some uid))) = stores d
    \<and> ratings (fst (delete_user_handler d (Some uid))) = ratings d"
proof (cases "0 < count_stores d uid \<or> 0 < count_ratings d uid")
  case True
  then have "delete_user_handler d (Some uid)
               = (d, Response 400 (ErrorBody ''Cannot delete user with stores or ratings''))"
    using assms by (simp add: delete_user_handler_def)
  with True show ?thesis by auto
next
  case False
  then have zero: "count_stores d uid = 0" "count_ratings d uid = 0" by simp_all
  have del: "user_delete d uid = Inr (d\<lparr>users := filter (\<lambda>x. u_id x \<noteq> uid) (users d)\<rparr>)"
    using assms zero by (simp add: user_delete_def)
  have res: "delete_user_handler d (Some uid)
               = (d\<lparr>users := filter (\<lambda>x. u_id x \<noteq> uid) (users d)\<rparr>,
                  Response 200 (MessageBody ''User deleted successfully''))"
    using assms zero by (simp add: delete_user_handler_def del)
  have "user_findUnique (d\<lparr>users := filter (\<lambda>x. u_id x \<noteq> uid) (users d)\<rparr>) uid = None"
    by (simp add: user_findUnique_def find_filter_neq_None)
  with res zero show ?thesis by simp
qed

lemma db1_user_2: "user_findUnique db1 2 = Some olive"
  by (simp add: user_findUnique_def db1_def alice_def olive_def)

lemma db1_user_1: "user_findUnique db1 1 = Some alice"
  by (simp add: user_findUnique_def db1_def alice_def)

lemma db1_counts:
  "count_stores db1 2 = 2" "count_ratings db1 2 = 0" "count_stores db1 1 = 0" "count_ratings db1 1 = 0"
  by (simp_all add: count_stores_def count_ratings_def db1_def shop_def kiosk_def rated_def)

theorem delete_user_guard_witness:
  "user_findUnique db1 2 = Some olive \<and> 0 < count_stores db1 2
   \<and> delete_user_handler db1 (Some 2)
       = (db1, Response 400 (ErrorBody ''Cannot delete user with stores or ratings''))
   \<and> user_findUnique db1 1 = Some alice \<and> count_stores db1 1 = 0 \<and> count_ratings db1 1 = 0
   \<and> delete_user_handler db1 (Some 1)
       = (db1\<lparr>users := [olive, uma, ursula, ulrich]\<rparr>,
          Response 200 (MessageBody ''User deleted successfully''))"
proof -
  have "filter (\<lambda>x. u_id x \<noteq> 1) (users db1) = [olive, uma, ursula, ulrich]"
    by (simp add: db1_def alice_def olive_def uma_def ursula_def ulrich_def)
  then show ?thesis
    using delete_user_guard [OF db1_user_2] delete_user_guard [OF db1_user_1]
    by (simp add: db1_user_1 db1_user_2 db1_counts)
qed

section \<open>Deleting a store\<close>

text \<open>
  C6. Deleting an existing store succeeds; afterwards no rating references the store's
  id and the store's row is gone. The ratings of other stores, the other stores and the
  users are kept.
\<close>

theorem delete_store_cascades:
  assumes "store_findUnique d sid = Some s"
  shows "\<exists>d'. delete_store_handler d (Some sid)
                 = (d', Response 200 (MessageBody ''Store deleted successfully''))
           \<and> list_all (\<lambda>r. r_storeId r \<noteq> sid) (ratings d')
           \<and> store_findUnique d' sid = None
           \<and> ratings d' = filter (\<lambda>r. r_storeId r \<noteq> sid) (ratings d)
           \<and> stores d' = filter (\<lambda>x. s_id x \<noteq> sid) (stores d)
           \<and> users d' = users d"
proof -
  let ?d1 = "rating_deleteMany d sid"
  let ?d2 = "?d1\<lparr>stores := filter (\<lambda>x. s_id x \<noteq> sid) (stores ?d1)\<rparr>"
  have s1: "store_findUnique ?d1 sid = Some s"
    using assms by (simp add: store_findUnique_def rating_deleteMany_def)
  have none: "\<not> list_ex (\<lambda>r. r_storeId r = sid) (ratings ?d1)"
    by (simp add: rating_deleteMany_def list_ex_iff)
  have del: "store_delete ?d1 sid = Inr ?d2"
    using s1 none by (simp add: store_delete_def)
  have res: "delete_store_handler d (Some sid)
               = (?d2, Response 200 (MessageBody ''Store deleted successfully''))"
    by (simp add: delete_store_handler_def Let_def del)
  have "store_findUnique ?d2 sid = None"
    by (simp add: store_findUnique_def find_None_iff)
  moreover have "list_all (\<lambda>r. r_storeId r \<noteq> sid) (ratings ?d2)"
    by (simp add: rating_deleteMany_def list_all_iff)
  ultimately show ?thesis
    using res by (simp add: rating_deleteMany_def)
qed

lemma db1_store_10: "store_findUnique db1 10 = Some shop"
  by (simp add: store_findUnique_def db1_def shop_def)

lemma db1_delete_10:
  "delete_store_handler db1 (Some 10)
     = (db1\<lparr>stores := [kiosk], ratings := []\<rparr>,
        Response 200 (MessageBody ''Store deleted successfully''))"
  by (simp add: delete_store_handler_def rating_deleteMany_def store_delete_def
      store_findUnique_def db1_def rated_def shop_def kiosk_def Let_def)

theorem delete_store_cascades_witness:
  "store_findUnique db1 10 = Some shop
   \<and> delete_store_handler db1 (Some 10)
       = (db1\<lparr>stores := [kiosk], ratings := []\<rparr>,
          Response 200 (MessageBody ''Store deleted successfully''))
   \<and> store_findUnique (db1\<lparr>stores := [kiosk], ratings := []\<rparr>) 10 = None
   \<and> ratings (db1\<lparr>stores := [kiosk], ratings := []\<rparr>) = []"
proof -
  have "store_findUnique (db1\<lparr>stores := [kiosk], ratings := []\<rparr>) 10 = None"
    by (simp add: store_findUnique_def kiosk_def)
  then show ?thesis
    using delete_store_cascades [OF db1_store_10]
    by (simp add: db1_store_10 db1_delete_10)
qed

section \<open>The owner of a store\<close>


lemma prisma_id_of_int: "prisma_id (IdNumber (of_int i)) = (if int32 i then Some i else None)"
  by (simp add: prisma_id_def prisma_Int_number_def)


lemma olive_name_ok: "validateName (Some ''Olive Owner Of The Store'')"
  by (simp add: validateName_def)

lemma olive_email_ok: "validateEmail (Some ''olive@example.com'')"
  by (simp add: validateEmail_def emailRegex_def word_char_def is_space_def upt_rec)

lemma kiosk_name_ok: "validateName (Some ''The Kiosk At The Station'')"
  by (simp add: validateName_def)

lemma kiosk_address_ok: "validateAddress (Some ''2 Station Road'')"
  by (simp add: validateAddress_def)










section \<open>The value of a rating\<close>






section \<open>Requests that name an id without a row\<close>

lemma db1_user_99: "user_findUnique db1 99 = None"
  by (simp add: user_findUnique_def db1_def alice_def olive_def uma_def ursula_def ulrich_def)

lemma db1_store_99: "store_findUnique db1 99 = None"
  by (simp add: store_findUnique_def db1_def shop_def kiosk_def)

lemma db1_delete_user_99:
  "delete_user_handler db1 (Some 99) = (db1, Response 500 (Caught TypeError))"
  by (simp add: delete_user_handler_def db1_user_99)

lemma db1_update_user_99:
  "update_user_handler db1 (Some 99) (Some ''Olive Owner Of The Store'') (Some ''olive@example.com'')
       (Some ''OWNER'')
     = (db1, Response 500 (Caught P2025))"
  by (simp add: update_user_handler_def olive_name_ok olive_email_ok role_of_string_def
      user_update_def db1_user_99)

lemma db1_update_store_99:
  "update_store_handler db1 (Some 99) (Some ''The Kiosk At The Station'') (Some ''2 Station Road'')
       (IdNumber 2)
     = (db1, Response 500 (Caught P2025))"
  using prisma_id_of_int [of 2]
  by (simp add: update_store_handler_def kiosk_name_ok kiosk_address_ok db1_user_2 olive_def
      store_update_def db1_store_99 int32_def)

lemma db1_delete_store_99:
  "delete_store_handler db1 (Some 99) = (db1, Response 500 (Caught P2025))"
proof -
  have "rating_deleteMany db1 99 = db1"
    by (simp add: rating_deleteMany_def db1_def rated_def)
  then show ?thesis
    by (simp add: delete_store_handler_def store_delete_def db1_store_99)
qed

lemma db1_rate_99:
  "rate_handler db1 (tok 3 USER) (Some 99) (JNumber 4)
     = (db1, Response 404 (ErrorBody ''Store not found''))"
  by (simp add: rate_handler_def tok_def jwt_sign_def js_lt_def js_gt_def db1_store_99 int32_def)

text \<open>
  C8. On the example tables no user and no store has the id 99. Rating store 99 is
  answered 404. Deleting user 99 reads \<open>_count\<close> of \<open>null\<close> and is answered 500; updating
  user 99, updating store 99 and deleting store 99 let Prisma's P2025 reach the
  handler's \<open>catch\<close> and are answered 500 as well. None of the requests changes the
  tables.
\<close>

theorem absent_id_answers:
  "user_findUnique db1 99 = None \<and> store_findUnique db1 99 = None
   \<and> rate_handler db1 (tok 3 USER) (Some 99) (JNumber 4)
       = (db1, Response 404 (ErrorBody ''Store not found''))
   \<and> delete_user_handler db1 (Some 99) = (db1, Response 500 (Caught TypeError))
   \<and> update_user_handler db1 (Some 99) (Some ''Olive Owner Of The Store'')
         (Some ''olive@example.com'') (Some ''OWNER'')
       = (db1, Response 500 (Caught P2025))
   \<and> update_store_handler db1 (Some 99) (Some ''The Kiosk At The Station'')
         (Some ''2 Station Road'') (IdNumber 2)
       = (db1, Response 500 (Caught P2025))
   \<and> delete_store_handler db1 (Some 99) = (db1, Response 500 (Caught P2025))"
  by (simp only: db1_user_99 db1_store_99 db1_rate_99 db1_delete_user_99 db1_update_user_99
      db1_update_store_99 db1_delete_store_99 simp_thms)

theorem absent_id_answers_witness:
  "status (snd (rate_handler db1 (tok 3 USER) (Some 99) (JNumber 4))) = 404
   \<and> status (snd (delete_user_handler db1 (Some 99))) = 500
   \<and> status (snd (update_user_handler db1 (Some 99) (Some ''Olive Owner Of The Store'')
         (Some ''olive@example.com'') (Some ''OWNER''))) = 500
   \<and> status (snd (update_store_handler db1 (Some 99) (Some ''The Kiosk At The Station'')
         (Some ''2 Station Road'') (IdNumber 2))) = 500
   \<and> status (snd (delete_store_handler db1 (Some 99))) = 500"
  using absent_id_answers by simp

section \<open>The top stores of the dashboard\<close>

lemma those_entries_all2:
  assumes "\<forall>x\<in>set xs. f x \<noteq> None"
  shows "\<exists>ys. those_entries (map f xs) = Some ys \<and> list_all2 (\<lambda>x y. f x = Some y) xs ys"
  using assms
proof (induction xs)
  case Nil
  then show ?case by simp
next
  case (Cons x xs)
  then obtain y ys where "f x = Some y" "those_entries (map f xs) = Some ys"
    "list_all2 (\<lambda>x y. f x = Some y) xs ys" by auto
  then show ?case by simp
qed

lemma list_all2_right_ex:
  "list_all2 R xs ys \<Longrightarrow> y \<in> set ys \<Longrightarrow> \<exists>x\<in>set xs. R x y"
  by (induction rule: list_all2_induct) auto

lemma list_all2_left_ex:
  "list_all2 R xs ys \<Longrightarrow> x \<in> set xs \<Longrightarrow> \<exists>y\<in>set ys. R x y"
  by (induction rule: list_all2_induct) auto

lemma list_all2_map_eq:
  "list_all2 R xs ys \<Longrightarrow> (\<And>x y. R x y \<Longrightarrow> g y = f x) \<Longrightarrow> map g ys = map f xs"
  by (induction rule: list_all2_induct) auto

lemma top_store_entry_fields:
  assumes "top_store_entry d s = Some t"
  shows "ts_id t = s_id s" "ts_name t = s_name s"
    "ts_totalRatings t = length (include_ratings d s)"
    "ts_averageRating t = toFixed1 (avg (include_ratings d s))"
  using assms by (auto simp: top_store_entry_def split: option.splits)

lemma top_stores_query_props:
  "length (top_stores_query d) = min 5 (length (stores d))"
  "set (top_stores_query d) \<subseteq> set (stores d)"
  "sorted_wrt (\<lambda>a b. length (include_ratings d b) \<le> length (include_ratings d a)) (top_stores_query d)"
  "s \<in> set (stores d) \<Longrightarrow> s \<notin> set (top_stores_query d) \<Longrightarrow> t \<in> set (top_stores_query d)
     \<Longrightarrow> length (include_ratings d s) \<le> length (include_ratings d t)"
proof -
  let ?k = "\<lambda>s. - int (length (include_ratings d s))"
  let ?L = "sort_key ?k (stores d)"
  show "length (top_stores_query d) = min 5 (length (stores d))"
    by (simp add: top_stores_query_def min.commute)
  show "set (top_stores_query d) \<subseteq> set (stores d)"
    using set_take_subset [of 5 ?L] by (simp add: top_stores_query_def)
  have srt: "sorted (map ?k ?L)" by (rule sorted_sort_key)
  have "sorted (map ?k (take 5 ?L))"
    using srt by (simp add: take_map [symmetric] sorted_wrt_take del: take_map)
  then show "sorted_wrt (\<lambda>a b. length (include_ratings d b) \<le> length (include_ratings d a))
               (top_stores_query d)"
    by (simp add: top_stores_query_def sorted_wrt_map)
  assume s: "s \<in> set (stores d)" "s \<notin> set (top_stores_query d)" and t: "t \<in> set (top_stores_query d)"
  have "?L = take 5 ?L @ drop 5 ?L" by simp
  then have "sorted (map ?k (take 5 ?L) @ map ?k (drop 5 ?L))"
    using srt by (metis map_append)
  then have ord: "\<forall>x\<in>set (take 5 ?L). \<forall>y\<in>set (drop 5 ?L). ?k x \<le> ?k y"
    by (auto simp: sorted_append)
  have "s \<in> set ?L" using s(1) by simp
  then have "s \<in> set (take 5 ?L) \<union> set (drop 5 ?L)"
    by (metis append_take_drop_id set_append)
  with s(2) have "s \<in> set (drop 5 ?L)" by (simp add: top_stores_query_def)
  with ord t show "length (include_ratings d s) \<le> length (include_ratings d t)"
    by (fastforce simp: top_stores_query_def)
qed

lemma usersByRole_groups_lookup:
  "map_of (usersByRole_groups d) r
     = (if 0 < length (filter (\<lambda>u. u_role u = r) (users d))
        then Some (length (filter (\<lambda>u. u_role u = r) (users d))) else None)"
  by (cases r) (simp_all add: usersByRole_groups_def)

lemma avg_whole:
  assumes vals: "\<forall>r\<in>set rs. 1 \<le> r_rating r \<and> r_rating r \<le> 5"
    and len: "0 < length rs" "length rs < 2 ^ 32"
    and whole: "sum_list (map r_rating rs) = k * int (length rs)"
  shows "toFixed1 (avg rs) = of_int k"
proof -
  let ?c = "int (length rs)"
  have c: "0 < ?c" "?c < 2 ^ 32" using len by simp_all
  have red: "foldl (\<lambda>a r. js_add a (of_int (r_rating r))) 0 rs = of_int (k * ?c)"
    using reduce_exact [OF vals, of 0] c whole by simp
  have "?c \<le> k * ?c" "k * ?c \<le> 5 * ?c"
    using sum_bounds [OF vals] whole by simp_all
  with c have k: "1 \<le> k" "k \<le> 5" by simp_all
  have "avg rs = fl (of_int (k * ?c) / of_int ?c)"
    using len by (simp add: avg_def js_div_def red)
  also have "(of_int (k * ?c) :: rat) / of_int ?c = of_int k"
    using c by simp
  also have "fl (of_int k) = of_int k"
    using k by (intro fl_of_int) simp_all
  finally have a: "avg rs = of_int k" .
  have "\<lfloor>(of_int k :: rat) * 10 + 1 / 2\<rfloor> = k * 10"
    by (rule floor_unique) simp_all
  then show ?thesis
    using k by (simp add: a toFixed1_def)
qed

lemma db2_include:
  "include_ratings db2 (branch 10) = [rated 100 5 10 3]"
  "include_ratings db2 (branch 11) = []"
  "include_ratings db2 (branch 12) = [rated 101 4 12 3, rated 102 2 12 4]"
  "include_ratings db2 (branch 13) = []"
  "include_ratings db2 (branch 14) = [rated 103 5 14 3, rated 104 4 14 4, rated 105 3 14 5]"
  "include_ratings db2 (branch 15) = [rated 106 1 15 5]"
  by (simp_all add: include_ratings_def db2_def branch_def rated_def)

lemma db2_top_stores_query:
  "top_stores_query db2 = [branch 14, branch 12, branch 10, branch 15, branch 11]"
proof -
  have "stores db2 = [branch 10, branch 11, branch 12, branch 13, branch 14, branch 15]"
    by (simp add: db2_def)
  then show ?thesis
    by (simp add: top_stores_query_def db2_include sort_key_def)
qed

lemma db2_averages:
  "toFixed1 (avg [rated 103 5 14 3, rated 104 4 14 4, rated 105 3 14 5]) = 4"
  "toFixed1 (avg [rated 101 4 12 3, rated 102 2 12 4]) = 3"
  "toFixed1 (avg [rated 100 5 10 3]) = 5"
  "toFixed1 (avg [rated 106 1 15 5]) = 1"
  "toFixed1 (avg []) = 0"
proof -
  show "toFixed1 (avg [rated 103 5 14 3, rated 104 4 14 4, rated 105 3 14 5]) = 4"
    using avg_whole [of "[rated 103 5 14 3, rated 104 4 14 4, rated 105 3 14 5]" 4]
    by (simp add: rated_def)
  show "toFixed1 (avg [rated 101 4 12 3, rated 102 2 12 4]) = 3"
    using avg_whole [of "[rated 101 4 12 3, rated 102 2 12 4]" 3] by (simp add: rated_def)
  show "toFixed1 (avg [rated 100 5 10 3]) = 5"
    using avg_whole [of "[rated 100 5 10 3]" 5] by (simp add: rated_def)
  show "toFixed1 (avg [rated 106 1 15 5]) = 1"
    using avg_whole [of "[rated 106 1 15 5]" 1] by (simp add: rated_def)
  show "toFixed1 (avg []) = 0"
    by (simp add: avg_def toFixed1_def)
qed

lemma db2_owner: "user_findUnique db2 2 = Some olive"
  by (simp add: user_findUnique_def db2_def alice_def olive_def)

lemma db2_fk: "stores_fk db2"
proof -
  have "stores db2 = [branch 10, branch 11, branch 12, branch 13, branch 14, branch 15]"
    by (simp add: db2_def)
  moreover have "s_ownerId (branch i) = 2" for i by (simp add: branch_def)
  ultimately show ?thesis by (simp add: stores_fk_def db2_owner)
qed

lemma db2_groups: "usersByRole_groups db2 = [(USER, 3), (OWNER, 1), (ADMIN, 1)]"
  by (simp add: usersByRole_groups_def db2_def alice_def olive_def uma_def ursula_def ulrich_def)

lemma db2_entries:
  "top_store_entry db2 (branch 14) = Some (top 14 4 3)"
  "top_store_entry db2 (branch 12) = Some (top 12 3 2)"
  "top_store_entry db2 (branch 10) = Some (top 10 5 1)"
  "top_store_entry db2 (branch 15) = Some (top 15 1 1)"
  "top_store_entry db2 (branch 11) = Some (top 11 0 0)"
proof -
  have b: "s_id (branch i) = i" "s_ownerId (branch i) = 2"
    "s_name (branch i) = ''A Branch Of The Corner Shop''" for i
    by (simp_all add: branch_def)
  show "top_store_entry db2 (branch 14) = Some (top 14 4 3)"
    "top_store_entry db2 (branch 12) = Some (top 12 3 2)"
    "top_store_entry db2 (branch 10) = Some (top 10 5 1)"
    "top_store_entry db2 (branch 15) = Some (top 15 1 1)"
    "top_store_entry db2 (branch 11) = Some (top 11 0 0)"
    by (simp_all add: top_store_entry_def db2_include db2_averages b db2_owner top_def olive_def)
qed

lemma db2_dashboard:
  "dashboard_handler db2
     = (db2, Response 200 (DashboardBody
          \<lparr>totalUsers = 5, totalStores = 6, totalRatings = 7,
           usersByRole = [(USER, 3), (OWNER, 1), (ADMIN, 1)],
           topStores = [top 14 4 3, top 12 3 2, top 10 5 1, top 15 1 1, top 11 0 0]\<rparr>))"
  by (simp add: dashboard_handler_def db2_top_stores_query db2_entries db2_groups)
     (simp add: db2_def)

text \<open>
  C9. When the stores have distinct ids and every store has its owner's row, the
  dashboard is answered 200 with the numbers of users, stores and ratings, the number
  of users of every role that has one, and \<open>topStores\<close>: five entries, or one for every
  store when there are fewer than five, no store twice, in falling order of
  \<open>totalRatings\<close>, each the entry of a store, with the number of that store's ratings
  and the average the listings report for it (0 without ratings, and otherwise a
  one-place decimal within one half of a tenth of sum / count). A store that is left
  out has no more ratings than any store that is listed.
\<close>

theorem dashboard_top_stores:
  assumes fk: "stores_fk d" and pk: "distinct (map s_id (stores d))"
  shows "\<exists>b. dashboard_handler d = (d, Response 200 (DashboardBody b))
    \<and> totalUsers b = length (users d) \<and> totalStores b = length (stores d)
    \<and> totalRatings b = length (ratings d)
    \<and> (\<forall>r. map_of (usersByRole b) r
              = (if 0 < length (filter (\<lambda>u. u_role u = r) (users d))
                 then Some (length (filter (\<lambda>u. u_role u = r) (users d))) else None))
    \<and> length (topStores b) = min 5 (length (stores d))
    \<and> distinct (map ts_id (topStores b))
    \<and> (length (stores d) \<le> 5 \<longrightarrow> ts_id ` set (topStores b) = s_id ` set (stores d))
    \<and> sorted_wrt (\<lambda>a b. ts_totalRatings b \<le> ts_totalRatings a) (topStores b)
    \<and> (\<forall>t\<in>set (topStores b). \<exists>s\<in>set (stores d).
           ts_id t = s_id s \<and> ts_name t = s_name s
           \<and> ts_totalRatings t = length (filter (\<lambda>r. r_storeId r = s_id s) (ratings d))
           \<and> ts_averageRating t = v_averageRating (with_aggregate s (include_ratings d s))
           \<and> (ts_totalRatings t = 0 \<longrightarrow> ts_averageRating t = 0)
           \<and> ((\<forall>r\<in>set (include_ratings d s). 1 \<le> r_rating r \<and> r_rating r \<le> 5)
                \<and> 0 < ts_totalRatings t \<and> ts_totalRatings t < 2 ^ 32 \<longrightarrow>
                (\<exists>n::int. ts_averageRating t = of_int n / 10
                   \<and> \<bar>of_int n / 10 - of_int (sum_list (map r_rating (include_ratings d s)))
                                        / of_nat (ts_totalRatings t) :: rat\<bar> \<le> 1 / 20)))
    \<and> (\<forall>s\<in>set (stores d). s_id s \<notin> ts_id ` set (topStores b) \<longrightarrow>
           (\<forall>t\<in>set (topStores b).
              length (filter (\<lambda>r. r_storeId r = s_id s) (ratings d)) \<le> ts_totalRatings t))"
proof -
  let ?Q = "top_stores_query d"
  have "\<forall>s\<in>set ?Q. top_store_entry d s \<noteq> None"
  proof
    fix s assume "s \<in> set ?Q"
    then have "s \<in> set (stores d)" using top_stores_query_props(2) by blast
    with fk have "user_findUnique d (s_ownerId s) \<noteq> None"
      by (simp add: stores_fk_def list_all_iff)
    then show "top_store_entry d s \<noteq> None"
      by (auto simp: top_store_entry_def)
  qed
  from those_entries_all2 [OF this]
  obtain tops where tops: "those_entries (map (top_store_entry d) ?Q) = Some tops"
    and rel: "list_all2 (\<lambda>s t. top_store_entry d s = Some t) ?Q tops"
    by blast
  let ?b = "\<lparr>totalUsers = length (users d), totalStores = length (stores d),
             totalRatings = length (ratings d), usersByRole = usersByRole_groups d,
             topStores = tops\<rparr>"
  have res: "dashboard_handler d = (d, Response 200 (DashboardBody ?b))"
    by (simp add: dashboard_handler_def tops)
  have len: "length tops = min 5 (length (stores d))"
    using list_all2_lengthD [OF rel] top_stores_query_props(1) [of d] by simp
  have cnt: "length (include_ratings d s) = length (filter (\<lambda>r. r_storeId r = s_id s) (ratings d))"
    for s by (simp add: include_ratings_def)
  have each: "\<exists>s\<in>set ?Q. top_store_entry d s = Some t" if "t \<in> set tops" for t
    using list_all2_right_ex [OF rel that] .
  have srt: "sorted_wrt (\<lambda>a b. ts_totalRatings b \<le> ts_totalRatings a) tops"
  proof -
    have "sorted_wrt (\<lambda>a b. length (include_ratings d b) \<le> length (include_ratings d a)) ?Q"
      by (rule top_stores_query_props(3))
    then have "sorted_wrt (\<lambda>a b. b \<le> a) (map (\<lambda>s. length (include_ratings d s)) ?Q)"
      by (simp add: sorted_wrt_map)
    moreover have "map ts_totalRatings tops = map (\<lambda>s. length (include_ratings d s)) ?Q"
      using rel by (rule list_all2_map_eq) (simp add: top_store_entry_fields(3))
    ultimately have "sorted_wrt (\<lambda>a b. b \<le> a) (map ts_totalRatings tops)"
      by simp
    then show ?thesis by (simp add: sorted_wrt_map)
  qed
  have entries: "\<forall>t\<in>set tops. \<exists>s\<in>set (stores d).
           ts_id t = s_id s \<and> ts_name t = s_name s
           \<and> ts_totalRatings t = length (filter (\<lambda>r. r_storeId r = s_id s) (ratings d))
           \<and> ts_averageRating t = v_averageRating (with_aggregate s (include_ratings d s))
           \<and> (ts_totalRatings t = 0 \<longrightarrow> ts_averageRating t = 0)
           \<and> ((\<forall>r\<in>set (include_ratings d s). 1 \<le> r_rating r \<and> r_rating r \<le> 5)
                \<and> 0 < ts_totalRatings t \<and> ts_totalRatings t < 2 ^ 32 \<longrightarrow>
                (\<exists>n::int. ts_averageRating t = of_int n / 10
                   \<and> \<bar>of_int n / 10 - of_int (sum_list (map r_rating (include_ratings d s)))
                                        / of_nat (ts_totalRatings t) :: rat\<bar> \<le> 1 / 20))"
  proof
    fix t assume "t \<in> set tops"
    then obtain s where s: "s \<in> set ?Q" "top_store_entry d s = Some t" using each by blast
    then have "s \<in> set (stores d)" using top_stores_query_props(2) by blast
    moreover have "ts_totalRatings t = 0 \<longrightarrow> ts_averageRating t = 0"
      using top_store_entry_fields [OF s(2)] by (simp add: avg_def toFixed1_def)
    moreover have "(\<forall>r\<in>set (include_ratings d s). 1 \<le> r_rating r \<and> r_rating r \<le> 5)
                \<and> 0 < ts_totalRatings t \<and> ts_totalRatings t < 2 ^ 32 \<longrightarrow>
                (\<exists>n::int. ts_averageRating t = of_int n / 10
                   \<and> \<bar>of_int n / 10 - of_int (sum_list (map r_rating (include_ratings d s)))
                                        / of_nat (ts_totalRatings t) :: rat\<bar> \<le> 1 / 20)"
      using top_store_entry_fields [OF s(2)] toFixed1_avg_nearest [of "include_ratings d s"]
      by simp
    ultimately show "\<exists>s\<in>set (stores d).
           ts_id t = s_id s \<and> ts_name t = s_name s
           \<and> ts_totalRatings t = length (filter (\<lambda>r. r_storeId r = s_id s) (ratings d))
           \<and> ts_averageRating t = v_averageRating (with_aggregate s (include_ratings d s))
           \<and> (ts_totalRatings t = 0 \<longrightarrow> ts_averageRating t = 0)
           \<and> ((\<forall>r\<in>set (include_ratings d s). 1 \<le> r_rating r \<and> r_rating r \<le> 5)
                \<and> 0 < ts_totalRatings t \<and> ts_totalRatings t < 2 ^ 32 \<longrightarrow>
                (\<exists>n::int. ts_averageRating t = of_int n / 10
                   \<and> \<bar>of_int n / 10 - of_int (sum_list (map r_rating (include_ratings d s)))
                                        / of_nat (ts_totalRatings t) :: rat\<bar> \<le> 1 / 20))"
      using top_store_entry_fields [OF s(2)] by (auto simp: cnt with_aggregate_def)
  qed
  have rest: "\<forall>s\<in>set (stores d). s_id s \<notin> ts_id ` set tops \<longrightarrow>
           (\<forall>t\<in>set tops.
              length (filter (\<lambda>r. r_storeId r = s_id s) (ratings d)) \<le> ts_totalRatings t)"
  proof (intro ballI impI)
    fix s t assume s: "s \<in> set (stores d)" "s_id s \<notin> ts_id ` set tops" and t: "t \<in> set tops"
    have "s \<notin> set ?Q"
    proof
      assume "s \<in> set ?Q"
      then obtain t' where "t' \<in> set tops" "top_store_entry d s = Some t'"
        using list_all2_left_ex [OF rel] by blast
      then have "s_id s \<in> ts_id ` set tops"
        using top_store_entry_fields(1) [of d s t'] by force
      with s(2) show False by simp
    qed
    moreover obtain s' where s': "s' \<in> set ?Q" "top_store_entry d s' = Some t"
      using each [OF t] by blast
    ultimately have "length (include_ratings d s) \<le> length (include_ratings d s')"
      using top_stores_query_props(4) [OF s(1)] by blast
    then show "length (filter (\<lambda>r. r_storeId r = s_id s) (ratings d)) \<le> ts_totalRatings t"
      using top_store_entry_fields(3) [OF s'(2)] by (simp add: cnt)
  qed
  have ids: "map ts_id tops = map s_id ?Q"
    using rel by (rule list_all2_map_eq) (simp add: top_store_entry_fields(1))
  have dist: "distinct (map ts_id tops)"
  proof -
    from pk have "distinct (stores d)" "inj_on s_id (set (stores d))"
      by (simp_all add: distinct_map)
    then have "distinct ?Q" "inj_on s_id (set ?Q)"
      using top_stores_query_props(2) [of d]
      by (auto simp: top_stores_query_def intro: inj_on_subset)
    then show ?thesis by (simp add: ids distinct_map)
  qed
  have all: "ts_id ` set tops = s_id ` set (stores d)" if "length (stores d) \<le> 5"
  proof -
    have "?Q = sort_key (\<lambda>s. - int (length (include_ratings d s))) (stores d)"
      using that by (simp add: top_stores_query_def)
    then have "set ?Q = set (stores d)" by simp
    moreover have "ts_id ` set tops = s_id ` set ?Q"
      using arg_cong [OF ids, of set] by simp
    ultimately show ?thesis by simp
  qed
  show ?thesis
    using res len srt entries rest dist all
    by (intro exI [of _ ?b]) (simp add: usersByRole_groups_lookup)
qed

lemma db2_pk: "distinct (map s_id (stores db2))"
  by (simp add: db2_def branch_def)

theorem dashboard_top_stores_witness:
  "stores_fk db2 \<and> distinct (map s_id (stores db2))
   \<and> dashboard_handler db2
       = (db2, Response 200 (DashboardBody
            \<lparr>totalUsers = 5, totalStores = 6, totalRatings = 7,
             usersByRole = [(USER, 3), (OWNER, 1), (ADMIN, 1)],
             topStores = [top 14 4 3, top 12 3 2, top 10 5 1, top 15 1 1, top 11 0 0]\<rparr>))
   \<and> length (stores db2) = 6
   \<and> length [top 14 4 3, top 12 3 2, top 10 5 1, top 15 1 1, top 11 0 0] = min 5 (length (stores db2))
   \<and> map ts_id [top 14 4 3, top 12 3 2, top 10 5 1, top 15 1 1, top 11 0 0] = [14, 12, 10, 15, 11]
   \<and> stores_fk db1 \<and> distinct (map s_id (stores db1)) \<and> length (stores db1) \<le> 5
   \<and> (\<exists>b. dashboard_handler db1 = (db1, Response 200 (DashboardBody b))
          \<and> ts_id ` set (topStores b) = {10, 11})"
proof -
  have l: "length (stores db2) = 6" by (simp add: db2_def)
  have i: "map ts_id [top 14 4 3, top 12 3 2, top 10 5 1, top 15 1 1, top 11 0 0]
             = [14, 12, 10, 15, 11]"
    by (simp add: top_def)
  have fk1: "stores_fk db1"
    by (simp add: stores_fk_def db1_def shop_def kiosk_def user_findUnique_def alice_def olive_def)
  have pk1: "distinct (map s_id (stores db1))" "length (stores db1) \<le> 5"
    by (simp_all add: db1_def shop_def kiosk_def)
  have ids1: "s_id ` set (stores db1) = {10, 11}"
    by (simp add: db1_def shop_def kiosk_def)
  from dashboard_top_stores [OF fk1 pk1(1)] obtain b where
    "dashboard_handler db1 = (db1, Response 200 (DashboardBody b))"
    "length (stores db1) \<le> 5 \<longrightarrow> ts_id ` set (topStores b) = s_id ` set (stores db1)"
    by (elim exE conjE)
  with pk1(2) ids1 have small: "\<exists>b. dashboard_handler db1 = (db1, Response 200 (DashboardBody b))
          \<and> ts_id ` set (topStores b) = {10, 11}"
    by (intro exI [of _ b]) simp
  have big: "dashboard_handler db2
       = (db2, Response 200 (DashboardBody
            \<lparr>totalUsers = 5, totalStores = 6, totalRatings = 7,
             usersByRole = [(USER, 3), (OWNER, 1), (ADMIN, 1)],
             topStores = [top 14 4 3, top 12 3 2, top 10 5 1, top 15 1 1, top 11 0 0]\<rparr>))
   \<and> length [top 14 4 3, top 12 3 2, top 10 5 1, top 15 1 1, top 11 0 0] = min 5 (length (stores db2))"
    using dashboard_top_stores [OF db2_fk db2_pk]
    by (simp add: db2_dashboard l)
  show ?thesis
    using big small db2_fk db2_pk l i fk1 pk1 by blast
qed

section \<open>The role of a request is the role in its token\<close>

lemma login_token:
  assumes "login_handler compare secret t0 d email password = (d0, Response 200 (LoginBody tk usr))"
  shows "tk = jwt_sign secret t0 (u_id usr) (u_role usr)"
    and "\<exists>e. email = Some e \<and> user_findUnique_email d e = Some usr"
  using assms
  by (auto simp: login_handler_def split: if_splits option.splits)

lemma authMiddleware_signed:
  "authMiddleware secret now (Bearer (jwt_sign secret t0 i r))
     = (if now < t0 + 86400 then Inr (jwt_sign secret t0 i r)
        else Inl (Response 403 (ErrorBody ''Invalid token'')))"
  by (simp add: authMiddleware_def jwt_verify_def jwt_sign_def)

lemma rate_handler_403: "(status (snd (rate_handler d u p v)) = 403) = (t_role u \<noteq> USER)"
  by (auto simp: rate_handler_def split: option.splits sum.splits)

lemma uma_name_ok: "validateName (Some ''Uma Ordinary User Example'')"
  by (simp add: validateName_def)

lemma uma_email_ok: "validateEmail (Some ''uma@example.com'')"
  by (simp add: validateEmail_def emailRegex_def word_char_def is_space_def upt_rec)

lemma db0_login_uma:
  "login_handler compare0 ''super-secret-key'' 0 db0 (Some ''uma@example.com'') (Some ''u'')
     = (db0, Response 200 (LoginBody (tok 3 USER) uma))"
proof -
  have "user_findUnique_email db0 ''uma@example.com'' = Some uma"
    by (simp add: user_findUnique_email_def db0_def alice_def olive_def uma_def)
  moreover have "compare0 ''u'' (u_password uma)" "u_id uma = 3" "u_role uma = USER"
    by (simp_all add: compare0_def uma_def)
  ultimately show ?thesis
    by (simp add: login_handler_def uma_email_ok tok_def)
qed

lemma db0_promote_uma:
  "put_admin_users_id ''super-secret-key'' 10 (Bearer (tok 1 ADMIN)) db0 (Some 3)
       (Some ''Uma Ordinary User Example'') (Some ''uma@example.com'') (Some ''OWNER'')
     = (db0_promoted, Response 200 (UserUpdated (uma\<lparr>u_role := OWNER\<rparr>)))"
proof -
  have a: "authMiddleware ''super-secret-key'' 10 (Bearer (tok 1 ADMIN)) = Inr (tok 1 ADMIN)"
    by (simp add: tok_def authMiddleware_signed)
  have b: "adminMiddleware (tok 1 ADMIN) = None"
    by (simp add: adminMiddleware_def tok_def jwt_sign_def)
  have c: "\<not> list_ex (\<lambda>x. u_email x = ''uma@example.com'' \<and> u_id x \<noteq> 3) (users db0)"
    by (simp add: db0_def alice_def olive_def uma_def)
  have e: "uma\<lparr>u_name := ''Uma Ordinary User Example'', u_email := ''uma@example.com'',
               u_role := OWNER\<rparr> = uma\<lparr>u_role := OWNER\<rparr>"
    by (simp add: uma_def)
  have "update_user_handler db0 (Some 3) (Some ''Uma Ordinary User Example'')
          (Some ''uma@example.com'') (Some ''OWNER'')
          = (db0_promoted, Response 200 (UserUpdated (uma\<lparr>u_role := OWNER\<rparr>)))"
    by (simp add: update_user_handler_def uma_name_ok uma_email_ok role_of_string_def
        user_update_def db0_user_3 c e)
       (simp add: db0_promoted_def db0_def alice_def olive_def uma_def)
  then show ?thesis
    by (simp add: put_admin_users_id_def admin_only_def authenticated_def a b)
qed

lemma promoted_user_3: "user_findUnique db0_promoted 3 = Some (uma\<lparr>u_role := OWNER\<rparr>)"
  by (simp add: user_findUnique_def db0_promoted_def alice_def olive_def uma_def)

lemma promoted_rate_4:
  "rate_handler db0_promoted (tok 3 USER) (Some 10) (JNumber 4)
     = (db0_promoted\<lparr>ratings := [rated 100 4 10 3], rating_seq := 101\<rparr>,
        Response 200 (RatingBody (rated 100 4 10 3)))"
proof -
  have "store_findUnique db0_promoted 10 = Some shop"
    "rating_findUnique db0_promoted 10 3 = None"
    by (simp_all add: store_findUnique_def rating_findUnique_def db0_promoted_def db0_def shop_def)
  moreover have "rating_create db0_promoted (JNumber 4) 10 3
       = Inr (db0_promoted\<lparr>ratings := [rated 100 4 10 3], rating_seq := 101\<rparr>, rated 100 4 10 3)"
    using calculation
    by (simp add: rating_create_def prisma_Int_4 promoted_user_3 rated_def Let_def)
       (simp add: db0_promoted_def db0_def)
  ultimately show ?thesis
    by (simp add: rate_handler_def tok_def jwt_sign_def js_lt_def js_gt_def)
qed

text \<open>
  C10. A token issued by a successful login carries the id and the role the user's row
  had then. For twenty-four hours every request bearing it passes \<open>authMiddleware\<close>
  with that role, whatever the tables hold by then: the rating route answers 403
  exactly when that role is not USER, every admin route exactly when it is not ADMIN,
  the owner route exactly when it is not OWNER. From the expiry on every route answers
  403, invalid token. In particular, after an admin has changed the user's role, the
  old token is still served under the old role.
\<close>

theorem token_role_decides:
  assumes login:
    "login_handler compare secret t0 d email password = (d0, Response 200 (LoginBody tk usr))"
  shows "t_id tk = u_id usr \<and> t_role tk = u_role usr
    \<and> (now < t0 + 86400 \<longrightarrow>
          authMiddleware secret now (Bearer tk) = Inr tk
          \<and> post_stores_id_rate secret now (Bearer tk) d' p v = rate_handler d' tk p v
          \<and> (status (snd (post_stores_id_rate secret now (Bearer tk) d' p v)) = 403)
              = (u_role usr \<noteq> USER)
          \<and> admin_only secret now (Bearer tk) d' k
              = (if u_role usr \<noteq> ADMIN
                 then (d', Response 403 (ErrorBody ''Admin access required'')) else k tk)
          \<and> get_owner_stores secret now (Bearer tk) d'
              = (if u_role usr \<noteq> OWNER
                 then (d', Response 403 (ErrorBody ''Store owner access required''))
                 else owner_stores_handler d' tk))
    \<and> (t0 + 86400 \<le> now \<longrightarrow>
          post_stores_id_rate secret now (Bearer tk) d' p v
            = (d', Response 403 (ErrorBody ''Invalid token''))
          \<and> admin_only secret now (Bearer tk) d' k
            = (d', Response 403 (ErrorBody ''Invalid token''))
          \<and> get_owner_stores secret now (Bearer tk) d'
            = (d', Response 403 (ErrorBody ''Invalid token'')))"
proof -
  have tk: "tk = jwt_sign secret t0 (u_id usr) (u_role usr)"
    using login by (rule login_token(1))
  have fields: "t_id tk = u_id usr" "t_role tk = u_role usr"
    by (simp_all add: tk jwt_sign_def)
  have valid: "authMiddleware secret now (Bearer tk) = Inr tk" if "now < t0 + 86400"
    using that by (simp add: tk authMiddleware_signed)
  have expired: "authMiddleware secret now (Bearer tk) = Inl (Response 403 (ErrorBody ''Invalid token''))"
    if "t0 + 86400 \<le> now"
    using that by (simp add: tk authMiddleware_signed)
  show ?thesis
  proof (intro conjI impI)
    show "t_id tk = u_id usr" "t_role tk = u_role usr" by (rule fields)+
  next
    assume n: "now < t0 + 86400"
    show "authMiddleware secret now (Bearer tk) = Inr tk" by (rule valid [OF n])
    show r: "post_stores_id_rate secret now (Bearer tk) d' p v = rate_handler d' tk p v"
      by (simp add: post_stores_id_rate_def authenticated_def valid [OF n])
    show "(status (snd (post_stores_id_rate secret now (Bearer tk) d' p v)) = 403)
              = (u_role usr \<noteq> USER)"
      by (simp add: r rate_handler_403 fields)
    show "admin_only secret now (Bearer tk) d' k
              = (if u_role usr \<noteq> ADMIN
                 then (d', Response 403 (ErrorBody ''Admin access required'')) else k tk)"
      by (simp add: admin_only_def authenticated_def valid [OF n] adminMiddleware_def fields)
    show "get_owner_stores secret now (Bearer tk) d'
              = (if u_role usr \<noteq> OWNER
                 then (d', Response 403 (ErrorBody ''Store owner access required''))
                 else owner_stores_handler d' tk)"
      by (simp add: get_owner_stores_def authenticated_def valid [OF n] ownerMiddleware_def fields)
  next
    assume x: "t0 + 86400 \<le> now"
    show "post_stores_id_rate secret now (Bearer tk) d' p v
            = (d', Response 403 (ErrorBody ''Invalid token''))"
      by (simp add: post_stores_id_rate_def authenticated_def expired [OF x])
    show "admin_only secret now (Bearer tk) d' k
            = (d', Response 403 (ErrorBody ''Invalid token''))"
      by (simp add: admin_only_def authenticated_def expired [OF x])
    show "get_owner_stores secret now (Bearer tk) d'
            = (d', Response 403 (ErrorBody ''Invalid token''))"
      by (simp add: get_owner_stores_def authenticated_def expired [OF x])
  qed
qed

theorem token_role_decides_witness:
  "login_handler compare0 ''super-secret-key'' 0 db0 (Some ''uma@example.com'') (Some ''u'')
     = (db0, Response 200 (LoginBody (tok 3 USER) uma))
   \<and> u_role uma = USER
   \<and> put_admin_users_id ''super-secret-key'' 10 (Bearer (tok 1 ADMIN)) db0 (Some 3)
         (Some ''Uma Ordinary User Example'') (Some ''uma@example.com'') (Some ''OWNER'')
       = (db0_promoted, Response 200 (UserUpdated (uma\<lparr>u_role := OWNER\<rparr>)))
   \<and> user_findUnique db0_promoted 3 = Some (uma\<lparr>u_role := OWNER\<rparr>)
   \<and> (3600::nat) < 0 + 86400
   \<and> post_stores_id_rate ''super-secret-key'' 3600 (Bearer (tok 3 USER)) db0_promoted (Some 10)
         (JNumber 4)
       = (db0_promoted\<lparr>ratings := [rated 100 4 10 3], rating_seq := 101\<rparr>,
          Response 200 (RatingBody (rated 100 4 10 3)))
   \<and> get_owner_stores ''super-secret-key'' 3600 (Bearer (tok 3 USER)) db0_promoted
       = (db0_promoted, Response 403 (ErrorBody ''Store owner access required''))
   \<and> get_admin_dashboard ''super-secret-key'' 3600 (Bearer (tok 3 USER)) db0_promoted
       = (db0_promoted, Response 403 (ErrorBody ''Admin access required''))
   \<and> (0::nat) + 86400 \<le> 86400
   \<and> post_stores_id_rate ''super-secret-key'' 86400 (Bearer (tok 3 USER)) db0_promoted (Some 10)
         (JNumber 4)
       = (db0_promoted, Response 403 (ErrorBody ''Invalid token''))"
proof -
  have u: "u_role uma = USER" by (simp add: uma_def)
  show ?thesis
    using token_role_decides [OF db0_login_uma, of 3600 db0_promoted "Some 10" "JNumber 4"
        "\<lambda>u. dashboard_handler db0_promoted"]
      token_role_decides [OF db0_login_uma, of 86400 db0_promoted "Some 10" "JNumber 4"
        "\<lambda>u. dashboard_handler db0_promoted"]
    by (simp add: u db0_login_uma db0_promote_uma promoted_user_3 promoted_rate_4
        get_admin_dashboard_def)
qed

end
